theory Spec2Isabelle
  imports Main
begin

section \<open>JSON tokens as encoding/json reads them\<close>

text \<open>
  The classifier of \<^verbatim>\<open>twitter/streams.go\<close> hands every token to
  \<^verbatim>\<open>json.Unmarshal\<close>. The library is not part of the repository; its
  behaviour on a byte token is modelled here: the grammar its scanner accepts (RFC 8259
  with the four whitespace bytes, a nesting limit of 10000), the decoding of string
  escapes, and the conversion of number literals to float64, which fails on overflow.
  Bytes of a string that are not an escape are kept as they are (the library replaces
  invalid UTF-8 by U+FFFD; no key the classifier looks for is affected). A number is
  kept as its literal.
\<close>

type_synonym bytes = string

datatype json =
    JNull
  | JBool bool
  | JNumber string
  | JString string
  | JArray "json list"
  | JObject "(string \<times> json) list"

datatype token =
    TLBrace | TRBrace | TLBracket | TRBracket | TComma | TColon
  | TString string | TNumber string | TTrue | TFalse | TNull

definition is_space :: "char \<Rightarrow> bool" where
  "is_space c = (c = CHR '' '' \<or> c = CHR 0x09 \<or> c = CHR 0x0A \<or> c = CHR 0x0D)"

definition is_digit :: "char \<Rightarrow> bool" where
  "is_digit c = (c \<in> set ''0123456789'')"

definition hexval :: "char \<Rightarrow> nat option" where
  "hexval c =
     (if is_digit c then Some (of_char c - 48)
      else if c \<in> set ''abcdef'' then Some (of_char c - 87)
      else if c \<in> set ''ABCDEF'' then Some (of_char c - 55)
      else None)"

definition utf8 :: "nat \<Rightarrow> string" where
  "utf8 r =
     (if r < 0x80 then [char_of r]
      else if r < 0x800 then [char_of (0xC0 + r div 64), char_of (0x80 + r mod 64)]
      else if r < 0x10000 then
        [char_of (0xE0 + r div 4096), char_of (0x80 + (r div 64) mod 64), char_of (0x80 + r mod 64)]
      else
        [char_of (0xF0 + r div 262144), char_of (0x80 + (r div 4096) mod 64),
         char_of (0x80 + (r div 64) mod 64), char_of (0x80 + r mod 64)])"

definition unescape :: "char \<Rightarrow> char option" where
  "unescape c =
     (if c = CHR 0x22 \<or> c = CHR 0x5C \<or> c = CHR ''/'' then Some c
      else if c = CHR ''b'' then Some (CHR 0x08)
      else if c = CHR ''f'' then Some (CHR 0x0C)
      else if c = CHR ''n'' then Some (CHR 0x0A)
      else if c = CHR ''r'' then Some (CHR 0x0D)
      else if c = CHR ''t'' then Some (CHR 0x09)
      else None)"

definition is_high :: "nat \<Rightarrow> bool" where
  "is_high u = (0xD800 \<le> u \<and> u < 0xDC00)"

definition is_low :: "nat \<Rightarrow> bool" where
  "is_low u = (0xDC00 \<le> u \<and> u < 0xE000)"

definition flush :: "string \<Rightarrow> nat option \<Rightarrow> string" where
  "flush acc p = (case p of None \<Rightarrow> acc | Some _ \<Rightarrow> acc @ utf8 0xFFFD)"

definition after_u :: "string \<Rightarrow> nat option \<Rightarrow> nat \<Rightarrow> string \<times> nat option" where
  "after_u acc p u =
     (case p of
        Some h \<Rightarrow>
          if is_low u then (acc @ utf8 (0x10000 + (h - 0xD800) * 0x400 + (u - 0xDC00)), None)
          else if is_high u then (acc @ utf8 0xFFFD, Some u)
          else (acc @ utf8 0xFFFD @ utf8 u, None)
      | None \<Rightarrow>
          if is_high u then (acc, Some u)
          else if is_low u then (acc @ utf8 0xFFFD, None)
          else (acc @ utf8 u, None))"

datatype lmode =
    LStart
  | LStr string "nat option"
  | LEsc string "nat option"
  | LHex string "nat option" nat nat
  | LNum string
  | LLit string token

definition is_numchar :: "char \<Rightarrow> bool" where
  "is_numchar c = (is_digit c \<or> c \<in> set ''+-.eE'')"

definition valid_exp :: "string \<Rightarrow> bool" where
  "valid_exp s =
     (case s of
        [] \<Rightarrow> True
      | c # r \<Rightarrow>
          (c = CHR ''e'' \<or> c = CHR ''E'') \<and>
          (let ds = (case r of [] \<Rightarrow> [] | g # r' \<Rightarrow> if g = CHR ''+'' \<or> g = CHR ''-'' then r' else r)
           in ds \<noteq> [] \<and> list_all is_digit ds))"

definition valid_frac :: "string \<Rightarrow> bool" where
  "valid_frac s =
     (case s of
        [] \<Rightarrow> True
      | c # r \<Rightarrow>
          if c = CHR ''.'' then
            (case r of [] \<Rightarrow> False | d # r' \<Rightarrow> is_digit d \<and> valid_exp (dropWhile is_digit r'))
          else valid_exp s)"

definition valid_number :: "string \<Rightarrow> bool" where
  "valid_number s =
     (case (case s of [] \<Rightarrow> [] | c # r \<Rightarrow> if c = CHR ''-'' then r else s) of
        [] \<Rightarrow> False
      | d # r \<Rightarrow>
          if d = CHR ''0'' then valid_frac r
          else is_digit d \<and> valid_frac (dropWhile is_digit r))"

definition lex_start :: "char \<Rightarrow> (token option \<times> lmode) option" where
  "lex_start c =
     (if is_space c then Some (None, LStart)
      else if c = CHR ''{'' then Some (Some TLBrace, LStart)
      else if c = CHR ''}'' then Some (Some TRBrace, LStart)
      else if c = CHR ''['' then Some (Some TLBracket, LStart)
      else if c = CHR '']'' then Some (Some TRBracket, LStart)
      else if c = CHR '','' then Some (Some TComma, LStart)
      else if c = CHR '':'' then Some (Some TColon, LStart)
      else if c = CHR 0x22 then Some (None, LStr [] None)
      else if c = CHR ''-'' \<or> is_digit c then Some (None, LNum [c])
      else if c = CHR ''t'' then Some (None, LLit ''rue'' TTrue)
      else if c = CHR ''f'' then Some (None, LLit ''alse'' TFalse)
      else if c = CHR ''n'' then Some (None, LLit ''ull'' TNull)
      else None)"

definition emit :: "token option \<Rightarrow> token list option \<Rightarrow> token list option" where
  "emit t r = (case t of None \<Rightarrow> r | Some x \<Rightarrow> map_option ((#) x) r)"

fun lex :: "lmode \<Rightarrow> string \<Rightarrow> token list option" where
  "lex LStart [] = Some []"
| "lex LStart (c # cs) =
     (case lex_start c of None \<Rightarrow> None | Some (t, m) \<Rightarrow> emit t (lex m cs))"
| "lex (LStr acc p) [] = None"
| "lex (LStr acc p) (c # cs) =
     (if c = CHR 0x22 then emit (Some (TString (flush acc p))) (lex LStart cs)
      else if c = CHR 0x5C then lex (LEsc acc p) cs
      else if (of_char c :: nat) < 0x20 then None
      else lex (LStr (flush acc p @ [c]) None) cs)"
| "lex (LEsc acc p) [] = None"
| "lex (LEsc acc p) (c # cs) =
     (if c = CHR ''u'' then lex (LHex acc p 0 0) cs
      else (case unescape c of
              None \<Rightarrow> None
            | Some d \<Rightarrow> lex (LStr (flush acc p @ [d]) None) cs))"
| "lex (LHex acc p k v) [] = None"
| "lex (LHex acc p k v) (c # cs) =
     (case hexval c of
        None \<Rightarrow> None
      | Some h \<Rightarrow>
          if k = 3 then (case after_u acc p (16 * v + h) of (acc', p') \<Rightarrow> lex (LStr acc' p') cs)
          else lex (LHex acc p (k + 1) (16 * v + h)) cs)"
| "lex (LNum acc) [] = (if valid_number acc then Some [TNumber acc] else None)"
| "lex (LNum acc) (c # cs) =
     (if is_numchar c then lex (LNum (acc @ [c])) cs
      else if valid_number acc then
        (case lex_start c of
           None \<Rightarrow> None
         | Some (t, m) \<Rightarrow> emit (Some (TNumber acc)) (emit t (lex m cs)))
      else None)"
| "lex (LLit [] t) cs = None"
| "lex (LLit (r # rs) t) [] = None"
| "lex (LLit (r # rs) t) (c # cs) =
     (if c \<noteq> r then None
      else if rs = [] then emit (Some t) (lex LStart cs)
      else lex (LLit rs t) cs)"

datatype frame = FArr "json list" | FObj "(string \<times> json) list" "string option"

datatype expect =
    EValue | EValueOrClose | EKeyOrClose | EKey | EColon | ECommaOrClose | EEnd json

definition maxNestingDepth :: nat where
  "maxNestingDepth = 10000"

definition deliver :: "json \<Rightarrow> frame list \<Rightarrow> (expect \<times> frame list) option" where
  "deliver v st =
     (case st of
        [] \<Rightarrow> Some (EEnd v, [])
      | FArr xs # st' \<Rightarrow> Some (ECommaOrClose, FArr (xs @ [v]) # st')
      | FObj ms None # st' \<Rightarrow> None
      | FObj ms (Some k) # st' \<Rightarrow> Some (ECommaOrClose, FObj (ms @ [(k, v)]) None # st'))"

definition scalar :: "token \<Rightarrow> json option" where
  "scalar t =
     (case t of
        TString s \<Rightarrow> Some (JString s)
      | TNumber n \<Rightarrow> Some (JNumber n)
      | TTrue \<Rightarrow> Some (JBool True)
      | TFalse \<Rightarrow> Some (JBool False)
      | TNull \<Rightarrow> Some JNull
      | _ \<Rightarrow> None)"

definition push :: "frame \<Rightarrow> expect \<Rightarrow> frame list \<Rightarrow> (expect \<times> frame list) option" where
  "push f e st = (if length st < maxNestingDepth then Some (e, f # st) else None)"

definition pstep :: "expect \<Rightarrow> frame list \<Rightarrow> token \<Rightarrow> (expect \<times> frame list) option" where
  "pstep e st t =
     (case e of
        EEnd v \<Rightarrow> None
      | EColon \<Rightarrow> (if t = TColon then Some (EValue, st) else None)
      | EKey \<Rightarrow>
          (case (t, st) of
             (TString k, FObj ms None # st') \<Rightarrow> Some (EColon, FObj ms (Some k) # st')
           | _ \<Rightarrow> None)
      | EKeyOrClose \<Rightarrow>
          (case (t, st) of
             (TString k, FObj ms None # st') \<Rightarrow> Some (EColon, FObj ms (Some k) # st')
           | (TRBrace, FObj ms None # st') \<Rightarrow> deliver (JObject ms) st'
           | _ \<Rightarrow> None)
      | ECommaOrClose \<Rightarrow>
          (case (t, st) of
             (TComma, FArr xs # st') \<Rightarrow> Some (EValue, st)
           | (TComma, FObj ms None # st') \<Rightarrow> Some (EKey, st)
           | (TRBracket, FArr xs # st') \<Rightarrow> deliver (JArray xs) st'
           | (TRBrace, FObj ms None # st') \<Rightarrow> deliver (JObject ms) st'
           | _ \<Rightarrow> None)
      | EValueOrClose \<Rightarrow>
          (case (t, st) of
             (TRBracket, FArr xs # st') \<Rightarrow> deliver (JArray xs) st'
           | (TLBracket, _) \<Rightarrow> push (FArr []) EValueOrClose st
           | (TLBrace, _) \<Rightarrow> push (FObj [] None) EKeyOrClose st
           | _ \<Rightarrow> (case scalar t of None \<Rightarrow> None | Some v \<Rightarrow> deliver v st))
      | EValue \<Rightarrow>
          (case t of
             TLBracket \<Rightarrow> push (FArr []) EValueOrClose st
           | TLBrace \<Rightarrow> push (FObj [] None) EKeyOrClose st
           | _ \<Rightarrow> (case scalar t of None \<Rightarrow> None | Some v \<Rightarrow> deliver v st)))"

fun parse :: "expect \<Rightarrow> frame list \<Rightarrow> token list \<Rightarrow> json option" where
  "parse e st [] = (case e of EEnd v \<Rightarrow> Some v | _ \<Rightarrow> None)"
| "parse e st (t # ts) =
     (case pstep e st t of None \<Rightarrow> None | Some (e', st') \<Rightarrow> parse e' st' ts)"

definition parse_json :: "bytes \<Rightarrow> json option" where
  "parse_json s = (case lex LStart s of None \<Rightarrow> None | Some ts \<Rightarrow> parse EValue [] ts)"

subsection \<open>Number literals and the float64 range\<close>

text \<open>
  \<^verbatim>\<open>convertNumber\<close> calls \<^verbatim>\<open>strconv.ParseFloat(s, 64)\<close>, which reports
  a range error exactly when the literal rounds to an infinity: when its absolute value
  is at least \<open>2^1024 - 2^970\<close>, half an ulp above the largest float64.
\<close>

definition digits_val :: "string \<Rightarrow> int" where
  "digits_val ds = foldl (\<lambda>v c. 10 * v + (of_char c - 48)) 0 ds"

definition mantissa :: "string \<Rightarrow> int \<times> int" where
  "mantissa s =
     (let u = (case s of [] \<Rightarrow> [] | c # r \<Rightarrow> if c = CHR ''-'' then r else s);
          ip = takeWhile is_digit u;
          r1 = dropWhile is_digit u;
          fp = (case r1 of [] \<Rightarrow> [] | c # r \<Rightarrow> if c = CHR ''.'' then takeWhile is_digit r else []);
          r2 = (case r1 of [] \<Rightarrow> [] | c # r \<Rightarrow> if c = CHR ''.'' then dropWhile is_digit r else r1);
          ex = (case r2 of
                  [] \<Rightarrow> 0
                | _ # r \<Rightarrow>
                    (case r of
                       [] \<Rightarrow> 0
                     | g # r' \<Rightarrow>
                         if g = CHR ''-'' then - digits_val r'
                         else if g = CHR ''+'' then digits_val r'
                         else digits_val r))
      in (digits_val (ip @ fp), ex - int (length fp)))"

definition float_overflow :: "string \<Rightarrow> bool" where
  "float_overflow s =
     (case mantissa s of
        (m, e) \<Rightarrow>
          if 0 \<le> e then 2 ^ 1024 - 2 ^ 970 \<le> m * 10 ^ nat e
          else (2 ^ 1024 - 2 ^ 970) * 10 ^ nat (- e) \<le> m)"

fun bad_number :: "json \<Rightarrow> string option"
  and bad_elements :: "json list \<Rightarrow> string option"
  and bad_members :: "(string \<times> json) list \<Rightarrow> string option" where
  "bad_number (JNumber n) = (if float_overflow n then Some n else None)"
| "bad_number (JArray xs) = bad_elements xs"
| "bad_number (JObject ms) = bad_members ms"
| "bad_number JNull = None"
| "bad_number (JBool b) = None"
| "bad_number (JString s) = None"
| "bad_elements [] = None"
| "bad_elements (x # xs) = (case bad_number x of Some n \<Rightarrow> Some n | None \<Rightarrow> bad_elements xs)"
| "bad_members [] = None"
| "bad_members ((k, v) # ms) = (case bad_number v of Some n \<Rightarrow> Some n | None \<Rightarrow> bad_members ms)"

section \<open>The message classifier\<close>

datatype error = SyntaxError | UnmarshalTypeError string | ClientError string

text \<open>
  A Go map is nil or holds entries; a lookup in the nil map finds nothing.
\<close>

datatype 'v gomap = NilMap | GoMap "string \<rightharpoonup> 'v"

text \<open>
  \<^verbatim>\<open>json.Unmarshal(token, &data)\<close> for a nil \<^verbatim>\<open>map[string]interface{}\<close>:
  a syntax error is reported before anything is stored; \<^verbatim>\<open>null\<close> leaves the map
  nil and reports nothing; any other value that is not an object is a type error; an
  object fills a fresh map, a later duplicate key replacing an earlier one, and the first
  number literal outside the float64 range is reported.
\<close>

definition unmarshalMap :: "bytes \<Rightarrow> error + json gomap" where
  "unmarshalMap token =
     (case parse_json token of
        None \<Rightarrow> Inl SyntaxError
      | Some JNull \<Rightarrow> Inr NilMap
      | Some (JBool b) \<Rightarrow> Inl (UnmarshalTypeError ''bool'')
      | Some (JNumber n) \<Rightarrow> Inl (UnmarshalTypeError ''number'')
      | Some (JString s) \<Rightarrow> Inl (UnmarshalTypeError ''string'')
      | Some (JArray xs) \<Rightarrow> Inl (UnmarshalTypeError ''array'')
      | Some (JObject ms) \<Rightarrow>
          (case bad_members ms of
             Some n \<Rightarrow> Inl (UnmarshalTypeError (''number '' @ n))
           | None \<Rightarrow> Inr (GoMap (map_of (rev ms)))))"

text \<open>\<^verbatim>\<open>hasPath\<close>, streams.go line 274.\<close>

definition hasPath :: "'v gomap \<Rightarrow> string \<Rightarrow> bool" where
  "hasPath data key = (case data of NilMap \<Rightarrow> False | GoMap m \<Rightarrow> m key \<noteq> None)"

text \<open>
  The envelope structs of the notices (declared in the repository's
  \<^verbatim>\<open>stream_messages.go\<close>); \<^verbatim>\<open>decodeMessage\<close> reads the fields named here.
  The payload structs are a type parameter.
\<close>

record 'p directMessageNotice =
  DirectMessage :: 'p

record 'p deleteBody =
  StatusDeletion :: 'p

record 'p statusDeletionNotice =
  Delete :: "'p deleteBody"

record 'p locationDeletionNotice =
  ScrubGeo :: 'p

record 'p streamLimitNotice =
  Limit :: 'p

record 'p statusWithheldNotice =
  StatusWithheld :: 'p

record 'p userWithheldNotice =
  UserWithheld :: 'p

record 'p streamDisconnectNotice =
  StreamDisconnect :: 'p

record 'p stallWarningNotice =
  StallWarning :: 'p

text \<open>
  \<^verbatim>\<open>json.Unmarshal(token, v)\<close> into a freshly allocated struct: the struct as the
  library leaves it, and the error it returns. The struct types and the library's
  struct decoding are parameters of the classifier.
\<close>

record 'p decoders =
  unmarshalTweet :: "bytes \<Rightarrow> 'p \<times> error option"
  unmarshalDirectMessageNotice :: "bytes \<Rightarrow> 'p directMessageNotice \<times> error option"
  unmarshalStatusDeletionNotice :: "bytes \<Rightarrow> 'p statusDeletionNotice \<times> error option"
  unmarshalLocationDeletionNotice :: "bytes \<Rightarrow> 'p locationDeletionNotice \<times> error option"
  unmarshalStreamLimitNotice :: "bytes \<Rightarrow> 'p streamLimitNotice \<times> error option"
  unmarshalStatusWithheldNotice :: "bytes \<Rightarrow> 'p statusWithheldNotice \<times> error option"
  unmarshalUserWithheldNotice :: "bytes \<Rightarrow> 'p userWithheldNotice \<times> error option"
  unmarshalStreamDisconnectNotice :: "bytes \<Rightarrow> 'p streamDisconnectNotice \<times> error option"
  unmarshalStallWarningNotice :: "bytes \<Rightarrow> 'p stallWarningNotice \<times> error option"
  unmarshalFriendsList :: "bytes \<Rightarrow> 'p \<times> error option"
  unmarshalEvent :: "bytes \<Rightarrow> 'p \<times> error option"
  unmarshalStreamData :: "bytes \<Rightarrow> 'p \<times> error option"

text \<open>
  What travels on the Messages channel (\<^verbatim>\<open>chan interface{}\<close>): a pointer to one
  of the message structs, the data map, or an error.
\<close>

datatype 'p message =
    Msg_Tweet 'p
  | Msg_DirectMessage 'p
  | Msg_StatusDeletion 'p
  | Msg_LocationDeletion 'p
  | Msg_StreamLimit 'p
  | Msg_StatusWithheld 'p
  | Msg_UserWithheld 'p
  | Msg_StreamDisconnect 'p
  | Msg_StallWarning 'p
  | Msg_FriendsList 'p
  | Msg_Event 'p
  | Msg_StreamData 'p
  | Msg_Data "json gomap"
  | Msg_Error error

text \<open>\<^verbatim>\<open>decodeMessage\<close>, streams.go lines 219 to 271.\<close>

definition decodeMessage :: "'p decoders \<Rightarrow> bytes \<Rightarrow> json gomap \<Rightarrow> 'p message" where
  "decodeMessage ds token data =
     (if hasPath data ''retweet_count'' then
        (case unmarshalTweet ds token of (tweet, _) \<Rightarrow> Msg_Tweet tweet)
      else if hasPath data ''direct_message'' then
        (case unmarshalDirectMessageNotice ds token of
           (notice, _) \<Rightarrow> Msg_DirectMessage (DirectMessage notice))
      else if hasPath data ''delete'' then
        (case unmarshalStatusDeletionNotice ds token of
           (notice, _) \<Rightarrow> Msg_StatusDeletion (StatusDeletion (Delete notice)))
      else if hasPath data ''scrub_geo'' then
        (case unmarshalLocationDeletionNotice ds token of
           (notice, _) \<Rightarrow> Msg_LocationDeletion (ScrubGeo notice))
      else if hasPath data ''limit'' then
        (case unmarshalStreamLimitNotice ds token of
           (notice, _) \<Rightarrow> Msg_StreamLimit (Limit notice))
      else if hasPath data ''status_withheld'' then
        (case unmarshalStatusWithheldNotice ds token of
           (notice, _) \<Rightarrow> Msg_StatusWithheld (StatusWithheld notice))
      else if hasPath data ''user_withheld'' then
        (case unmarshalUserWithheldNotice ds token of
           (notice, _) \<Rightarrow> Msg_UserWithheld (UserWithheld notice))
      else if hasPath data ''disconnect'' then
        (case unmarshalStreamDisconnectNotice ds token of
           (notice, _) \<Rightarrow> Msg_StreamDisconnect (StreamDisconnect notice))
      else if hasPath data ''warning'' then
        (case unmarshalStallWarningNotice ds token of
           (notice, _) \<Rightarrow> Msg_StallWarning (StallWarning notice))
      else if hasPath data ''friends'' then
        (case unmarshalFriendsList ds token of (friendsList, _) \<Rightarrow> Msg_FriendsList friendsList)
      else if hasPath data ''event'' then
        (case unmarshalEvent ds token of (event, _) \<Rightarrow> Msg_Event event)
      else if hasPath data ''matching_rules'' then
        (case unmarshalStreamData ds token of (streamData, _) \<Rightarrow> Msg_StreamData streamData)
      else Msg_Data data)"

text \<open>\<^verbatim>\<open>getMessage\<close>, streams.go lines 205 to 213.\<close>

definition getMessage :: "'p decoders \<Rightarrow> bytes \<Rightarrow> 'p message" where
  "getMessage ds token =
     (case unmarshalMap token of
        Inl err \<Rightarrow> Msg_Error err
      | Inr data \<Rightarrow> decodeMessage ds token data)"

section \<open>The classifier as a priority table\<close>

text \<open>
  The reading of the classifier that its description gives: an ordered table of key and
  variant, searched from the front, with the data map as the fallback. It is compared
  with \<open>decodeMessage\<close> below.
\<close>

definition is_object :: "json \<Rightarrow> bool" where
  "is_object v = (case v of JObject ms \<Rightarrow> True | _ \<Rightarrow> False)"

definition members :: "json \<Rightarrow> (string \<times> json) list" where
  "members v = (case v of JObject ms \<Rightarrow> ms | _ \<Rightarrow> [])"

definition value_kind :: "json \<Rightarrow> string" where
  "value_kind v =
     (case v of
        JNull \<Rightarrow> ''null''
      | JBool b \<Rightarrow> ''bool''
      | JNumber n \<Rightarrow> ''number''
      | JString s \<Rightarrow> ''string''
      | JArray xs \<Rightarrow> ''array''
      | JObject ms \<Rightarrow> ''object'')"

definition parses_as_object :: "bytes \<Rightarrow> bool" where
  "parses_as_object token = (case parse_json token of None \<Rightarrow> False | Some v \<Rightarrow> is_object v)"

definition shape_table :: "'p decoders \<Rightarrow> bytes \<Rightarrow> (string \<times> 'p message) list" where
  "shape_table ds token =
     [(''retweet_count'', Msg_Tweet (fst (unmarshalTweet ds token))),
      (''direct_message'',
         Msg_DirectMessage (DirectMessage (fst (unmarshalDirectMessageNotice ds token)))),
      (''delete'',
         Msg_StatusDeletion (StatusDeletion (Delete (fst (unmarshalStatusDeletionNotice ds token))))),
      (''scrub_geo'',
         Msg_LocationDeletion (ScrubGeo (fst (unmarshalLocationDeletionNotice ds token)))),
      (''limit'', Msg_StreamLimit (Limit (fst (unmarshalStreamLimitNotice ds token)))),
      (''status_withheld'',
         Msg_StatusWithheld (StatusWithheld (fst (unmarshalStatusWithheldNotice ds token)))),
      (''user_withheld'',
         Msg_UserWithheld (UserWithheld (fst (unmarshalUserWithheldNotice ds token)))),
      (''disconnect'',
         Msg_StreamDisconnect (StreamDisconnect (fst (unmarshalStreamDisconnectNotice ds token)))),
      (''warning'',
         Msg_StallWarning (StallWarning (fst (unmarshalStallWarningNotice ds token)))),
      (''friends'', Msg_FriendsList (fst (unmarshalFriendsList ds token))),
      (''event'', Msg_Event (fst (unmarshalEvent ds token))),
      (''matching_rules'', Msg_StreamData (fst (unmarshalStreamData ds token)))]"

definition first_match :: "'p decoders \<Rightarrow> bytes \<Rightarrow> json gomap \<Rightarrow> 'p message" where
  "first_match ds token data =
     (case find (\<lambda>(key, m). hasPath data key) (shape_table ds token) of
        None \<Rightarrow> Msg_Data data
      | Some (key, m) \<Rightarrow> m)"

text \<open>
  A family of decoders for evaluating the classifier on concrete tokens: a decoded
  struct is represented by the token it was decoded from, and \<open>fails\<close> gives the error
  that the decode of a token returns.
\<close>

definition echo_decoders :: "(bytes \<Rightarrow> error option) \<Rightarrow> bytes decoders" where
  "echo_decoders fails =
     \<lparr> unmarshalTweet = (\<lambda>t. (t, fails t)),
       unmarshalDirectMessageNotice = (\<lambda>t. (\<lparr>DirectMessage = t\<rparr>, fails t)),
       unmarshalStatusDeletionNotice = (\<lambda>t. (\<lparr>Delete = \<lparr>StatusDeletion = t\<rparr>\<rparr>, fails t)),
       unmarshalLocationDeletionNotice = (\<lambda>t. (\<lparr>ScrubGeo = t\<rparr>, fails t)),
       unmarshalStreamLimitNotice = (\<lambda>t. (\<lparr>Limit = t\<rparr>, fails t)),
       unmarshalStatusWithheldNotice = (\<lambda>t. (\<lparr>StatusWithheld = t\<rparr>, fails t)),
       unmarshalUserWithheldNotice = (\<lambda>t. (\<lparr>UserWithheld = t\<rparr>, fails t)),
       unmarshalStreamDisconnectNotice = (\<lambda>t. (\<lparr>StreamDisconnect = t\<rparr>, fails t)),
       unmarshalStallWarningNotice = (\<lambda>t. (\<lparr>StallWarning = t\<rparr>, fails t)),
       unmarshalFriendsList = (\<lambda>t. (t, fails t)),
       unmarshalEvent = (\<lambda>t. (t, fails t)),
       unmarshalStreamData = (\<lambda>t. (t, fails t)) \<rparr>"

text \<open>The decoders with every decode error replaced by success.\<close>

definition silenced :: "'p decoders \<Rightarrow> 'p decoders" where
  "silenced ds =
     \<lparr> unmarshalTweet = (\<lambda>t. (fst (unmarshalTweet ds t), None)),
       unmarshalDirectMessageNotice = (\<lambda>t. (fst (unmarshalDirectMessageNotice ds t), None)),
       unmarshalStatusDeletionNotice = (\<lambda>t. (fst (unmarshalStatusDeletionNotice ds t), None)),
       unmarshalLocationDeletionNotice = (\<lambda>t. (fst (unmarshalLocationDeletionNotice ds t), None)),
       unmarshalStreamLimitNotice = (\<lambda>t. (fst (unmarshalStreamLimitNotice ds t), None)),
       unmarshalStatusWithheldNotice = (\<lambda>t. (fst (unmarshalStatusWithheldNotice ds t), None)),
       unmarshalUserWithheldNotice = (\<lambda>t. (fst (unmarshalUserWithheldNotice ds t), None)),
       unmarshalStreamDisconnectNotice = (\<lambda>t. (fst (unmarshalStreamDisconnectNotice ds t), None)),
       unmarshalStallWarningNotice = (\<lambda>t. (fst (unmarshalStallWarningNotice ds t), None)),
       unmarshalFriendsList = (\<lambda>t. (fst (unmarshalFriendsList ds t), None)),
       unmarshalEvent = (\<lambda>t. (fst (unmarshalEvent ds t), None)),
       unmarshalStreamData = (\<lambda>t. (fst (unmarshalStreamData ds t), None)) \<rparr>"

section \<open>The stream: newStream, retry, receive and Stop\<close>

text \<open>
  A stream is one goroutine running \<^verbatim>\<open>retry\<close>, the caller of \<^verbatim>\<open>Stop\<close>, and
  the consumer of the Messages channel. The model is a transition system: a state holds
  the fields of the \<^verbatim>\<open>Stream\<close> struct, the locals of \<^verbatim>\<open>retry\<close>, the
  statement each party executes next, and a record of what has been observed; an action
  names the party that moves and what the outside world answers.
\<close>

type_synonym duration = int

text \<open>\<^verbatim>\<open>backoff.Stop\<close>, the duration \<open>-1\<close>.\<close>

definition backoff_Stop :: duration where
  "backoff_Stop = - 1"

text \<open>
  The interface \<^verbatim>\<open>backoff.BackOff\<close>: two methods on the state of the policy
  object.
\<close>

record 'b BackOff =
  NextBackOff :: "'b \<Rightarrow> duration \<times> 'b"
  Reset :: "'b \<Rightarrow> 'b"

text \<open>What \<^verbatim>\<open>s.client.Do(req)\<close> returns: an error, or a response with its status code.\<close>

datatype response = DoError error | DoResponse nat

text \<open>
  Modelled from the spec: the reader of \<^verbatim>\<open>stream_utils.go\<close> is missing. By the
  description of the frame reader, \<^verbatim>\<open>readNext\<close> returns the bytes of one line
  without its newline, or an error when no more tokens are available.
\<close>

datatype read = ReadError | ReadData bytes

datatype action =
    Task
  | Do_returns response
  | Read_returns read
  | Receive
  | Select_done
  | Timer
  | Wake
  | Stop_step

text \<open>The statement of \<^verbatim>\<open>receive\<close> that runs next (streams.go lines 182, 183, 191).\<close>

datatype 'p receive_pc = R_Loop | R_Read | R_Select "'p message"

text \<open>
  The statement of \<^verbatim>\<open>retry\<close> that runs next: lines 141, 142, 145, 154, 155,
  169 and 173, then the deferred calls in the order Go runs them: the
  \<^verbatim>\<open>resp.Body.Close()\<close> of line 149 for every response, \<^verbatim>\<open>s.group.Done()\<close>
  of line 138, \<^verbatim>\<open>close(s.Messages)\<close> of line 137.
\<close>

datatype 'p retry_pc =
    L_Loop
  | L_Do
  | L_SendErr error
  | L_Receive "'p receive_pc"
  | L_Reset
  | L_Close
  | L_Sleep
  | D_Bodies
  | D_GroupDone
  | D_CloseMessages
  | Exited

text \<open>The statement of \<^verbatim>\<open>Stop\<close> that runs next (lines 120, 124, 128).\<close>

datatype stop_pc = S_Idle | S_Body | S_Wait

record ('b, 'p) Stream =
  done_closed :: bool
  Messages_closes :: nat
  group :: nat
  body :: "nat option"
  wait :: duration
  expBackOff :: 'b
  aggExpBackOff :: 'b
  deferred :: "nat list"
  task :: "'p retry_pc"
  stopper :: stop_pc
  panicked :: bool
  opened :: nat
  closed_by_retry :: "nat set"
  closed_by_Stop :: "nat set"
  returns :: nat
  sent :: "'p message list"
  failure :: "error option"
  lost :: "'p message list"
  framed :: "bytes list"
  slept :: "duration list"

text \<open>
  \<^verbatim>\<open>newStream\<close>, lines 105 to 115: open channels, a wait group of one, no body, and
  \<^verbatim>\<open>retry\<close> about to start with \<^verbatim>\<open>wait\<close> zero. The two policies come from
  \<^verbatim>\<open>backoffs.go\<close>; their initial states are parameters.
\<close>

definition newStream :: "'b \<Rightarrow> 'b \<Rightarrow> ('b, 'p) Stream" where
  "newStream e0 a0 =
     \<lparr> done_closed = False, Messages_closes = 0, group = 1, body = None, wait = 0,
       expBackOff = e0, aggExpBackOff = a0, deferred = [], task = L_Loop,
       stopper = S_Idle, panicked = False, opened = 0, closed_by_retry = {},
       closed_by_Stop = {}, returns = 0, sent = [], failure = None, lost = [],
       framed = [], slept = [] \<rparr>"

text \<open>
  Modelled from the spec: \<^verbatim>\<open>stopped\<close> of \<^verbatim>\<open>stream_utils.go\<close> is missing. It
  observes cancellation without blocking: true once the done channel is closed.
\<close>

definition stopped :: "('b, 'p) Stream \<Rightarrow> bool" where
  "stopped s = done_closed s"

text \<open>What the consumer has received on the Messages channel, in order.\<close>

definition delivered :: "('b, 'p) Stream \<Rightarrow> 'p message list" where
  "delivered s = sent s @ (case failure s of None \<Rightarrow> [] | Some err \<Rightarrow> [Msg_Error err])"

text \<open>The message that \<^verbatim>\<open>receive\<close> is offering to the channel, if any.\<close>

definition pending :: "('b, 'p) Stream \<Rightarrow> 'p message list" where
  "pending s = (case task s of L_Receive (R_Select m) \<Rightarrow> [m] | _ \<Rightarrow> [])"

text \<open>
  \<^verbatim>\<open>receive\<close>, lines 180 to 200. The result is the new state and the next statement,
  or no statement when \<^verbatim>\<open>receive\<close> returns. A send completes when the consumer
  receives; the \<^verbatim>\<open><-s.done\<close> case of the select can be taken once done is closed.
\<close>

definition receive ::
  "'p decoders \<Rightarrow> ('b, 'p) Stream \<Rightarrow> 'p receive_pc \<Rightarrow> action \<Rightarrow>
     (('b, 'p) Stream \<times> 'p receive_pc option) option" where
  "receive ds s r a =
     (case r of
        R_Loop \<Rightarrow>
          (case a of
             Task \<Rightarrow> Some (s, if stopped s then None else Some R_Read)
           | _ \<Rightarrow> None)
      | R_Read \<Rightarrow>
          (case a of
             Read_returns ReadError \<Rightarrow> Some (s, None)
           | Read_returns (ReadData data) \<Rightarrow>
               if length data = 0 then Some (s\<lparr>framed := framed s @ [data]\<rparr>, Some R_Loop)
               else Some (s\<lparr>framed := framed s @ [data]\<rparr>,
                          Some (R_Select (getMessage ds data)))
           | _ \<Rightarrow> None)
      | R_Select m \<Rightarrow>
          (case a of
             Receive \<Rightarrow> Some (s\<lparr>sent := sent s @ [m]\<rparr>, Some R_Loop)
           | Select_done \<Rightarrow>
               if stopped s then Some (s\<lparr>lost := lost s @ [m]\<rparr>, None) else None
           | _ \<Rightarrow> None))"

text \<open>The collaborators of \<^verbatim>\<open>retry\<close>: its two policy arguments and the decoders.\<close>

record ('b, 'p) deps =
  expPolicy :: "'b BackOff"
  aggPolicy :: "'b BackOff"
  codec :: "'p decoders"

text \<open>\<^verbatim>\<open>resp.Body.Close()\<close>; \<^verbatim>\<open>s.body\<close> is \<^verbatim>\<open>resp.Body\<close> since line 150.\<close>

definition close_body :: "('b, 'p) Stream \<Rightarrow> ('b, 'p) Stream" where
  "close_body s =
     (case body s of
        None \<Rightarrow> s
      | Some b \<Rightarrow> s\<lparr>closed_by_retry := insert b (closed_by_retry s)\<rparr>)"

text \<open>
  \<^verbatim>\<open>retry\<close>, lines 135 to 175. \<^verbatim>\<open>wait\<close> is declared before the loop (line 140)
  and lives in the state. Modelled from the spec: \<^verbatim>\<open>sleepOrDone\<close> of
  \<^verbatim>\<open>stream_utils.go\<close> is missing; it waits the duration and is interrupted by
  cancellation: it returns when its timer fires, or once done is closed.
\<close>

definition retry ::
  "('b, 'p) deps \<Rightarrow> ('b, 'p) Stream \<Rightarrow> 'p retry_pc \<Rightarrow> action \<Rightarrow> ('b, 'p) Stream option" where
  "retry D s l a =
     (case l of
        L_Loop \<Rightarrow>
          (case a of
             Task \<Rightarrow> Some (s\<lparr>task := if stopped s then D_Bodies else L_Do\<rparr>)
           | _ \<Rightarrow> None)
      | L_Do \<Rightarrow>
          (case a of
             Do_returns (DoError err) \<Rightarrow> Some (s\<lparr>task := L_SendErr err\<rparr>)
           | Do_returns (DoResponse status) \<Rightarrow>
               (let b = opened s;
                    s1 = s\<lparr>opened := Suc b, deferred := b # deferred s, body := Some b\<rparr>
                in if status = 200 then Some (s1\<lparr>task := L_Receive R_Loop\<rparr>)
                   else if status = 503 then
                     (case NextBackOff (expPolicy D) (expBackOff s1) of
                        (w, e') \<Rightarrow> Some (s1\<lparr>wait := w, expBackOff := e', task := L_Close\<rparr>))
                   else if status = 420 \<or> status = 429 then
                     (case NextBackOff (aggPolicy D) (aggExpBackOff s1) of
                        (w, a') \<Rightarrow> Some (s1\<lparr>wait := w, aggExpBackOff := a', task := L_Close\<rparr>))
                   else Some ((close_body s1)\<lparr>task := D_Bodies\<rparr>))
           | _ \<Rightarrow> None)
      | L_SendErr err \<Rightarrow>
          (case a of
             Receive \<Rightarrow> Some (s\<lparr>failure := Some err, task := D_Bodies\<rparr>)
           | _ \<Rightarrow> None)
      | L_Receive r \<Rightarrow>
          (case receive (codec D) s r a of
             None \<Rightarrow> None
           | Some (s', Some r') \<Rightarrow> Some (s'\<lparr>task := L_Receive r'\<rparr>)
           | Some (s', None) \<Rightarrow> Some (s'\<lparr>task := L_Reset\<rparr>))
      | L_Reset \<Rightarrow>
          (case a of
             Task \<Rightarrow>
               Some (s\<lparr>expBackOff := Reset (expPolicy D) (expBackOff s),
                       aggExpBackOff := Reset (aggPolicy D) (aggExpBackOff s),
                       task := L_Close\<rparr>)
           | _ \<Rightarrow> None)
      | L_Close \<Rightarrow>
          (case a of
             Task \<Rightarrow>
               if wait s = backoff_Stop then Some ((close_body s)\<lparr>task := D_Bodies\<rparr>)
               else Some ((close_body s)\<lparr>task := L_Sleep\<rparr>)
           | _ \<Rightarrow> None)
      | L_Sleep \<Rightarrow>
          (case a of
             Timer \<Rightarrow> Some (s\<lparr>slept := slept s @ [wait s], task := L_Loop\<rparr>)
           | Wake \<Rightarrow> if stopped s then Some (s\<lparr>task := L_Loop\<rparr>) else None
           | _ \<Rightarrow> None)
      | D_Bodies \<Rightarrow>
          (case a of
             Task \<Rightarrow>
               Some (s\<lparr>closed_by_retry := closed_by_retry s \<union> set (deferred s),
                       deferred := [], task := D_GroupDone\<rparr>)
           | _ \<Rightarrow> None)
      | D_GroupDone \<Rightarrow>
          (case a of
             Task \<Rightarrow>
               if group s = 0 then Some (s\<lparr>panicked := True\<rparr>)
               else Some (s\<lparr>group := group s - 1, task := D_CloseMessages\<rparr>)
           | _ \<Rightarrow> None)
      | D_CloseMessages \<Rightarrow>
          (case a of
             Task \<Rightarrow>
               if 0 < Messages_closes s
               then Some (s\<lparr>Messages_closes := Suc (Messages_closes s), panicked := True\<rparr>)
               else Some (s\<lparr>Messages_closes := Suc (Messages_closes s), task := Exited\<rparr>)
           | _ \<Rightarrow> None)
      | Exited \<Rightarrow> None)"

text \<open>
  \<^verbatim>\<open>Stop\<close>, lines 119 to 129, one statement at a time: \<^verbatim>\<open>close(s.done)\<close>, which
  panics in Go when the channel is already closed; the close of \<^verbatim>\<open>s.body\<close> when it
  is not nil; \<^verbatim>\<open>s.group.Wait()\<close>, which can return only when the counter is zero.
\<close>

definition Stop :: "('b, 'p) Stream \<Rightarrow> ('b, 'p) Stream option" where
  "Stop s =
     (case stopper s of
        S_Idle \<Rightarrow>
          if done_closed s then Some (s\<lparr>panicked := True\<rparr>)
          else Some (s\<lparr>done_closed := True, stopper := S_Body\<rparr>)
      | S_Body \<Rightarrow>
          (case body s of
             None \<Rightarrow> Some (s\<lparr>stopper := S_Wait\<rparr>)
           | Some b \<Rightarrow> Some (s\<lparr>closed_by_Stop := insert b (closed_by_Stop s), stopper := S_Wait\<rparr>))
      | S_Wait \<Rightarrow>
          if group s = 0 then Some (s\<lparr>stopper := S_Idle, returns := Suc (returns s)\<rparr>)
          else None)"

text \<open>One step of the whole program; a panic ends it.\<close>

definition step :: "('b, 'p) deps \<Rightarrow> ('b, 'p) Stream \<Rightarrow> action \<Rightarrow> ('b, 'p) Stream option" where
  "step D s a =
     (if panicked s then None
      else if a = Stop_step then Stop s
      else retry D s (task s) a)"

fun run :: "('b, 'p) deps \<Rightarrow> ('b, 'p) Stream \<Rightarrow> action list \<Rightarrow> ('b, 'p) Stream option" where
  "run D s [] = Some s"
| "run D s (a # as) = (case step D s a of None \<Rightarrow> None | Some s' \<Rightarrow> run D s' as)"

text \<open>
  Modelled from the spec: the constructors of the two policies are in
  \<^verbatim>\<open>backoffs.go\<close>, which is missing. By the description of the backoff policy, a
  policy answers with growing waits up to a ceiling and with Stop beyond it, and Reset
  returns it to its initial state. The state is the next wait.
\<close>

definition exponential :: "duration \<Rightarrow> duration \<Rightarrow> duration BackOff" where
  "exponential initial ceiling =
     \<lparr> NextBackOff = (\<lambda>cur. if ceiling < cur then (backoff_Stop, cur) else (cur, 2 * cur)),
       Reset = (\<lambda>cur. initial) \<rparr>"

definition example_deps :: "(duration, bytes) deps" where
  "example_deps =
     \<lparr> expPolicy = exponential 5 320, aggPolicy = exponential 60 960,
       codec = echo_decoders (\<lambda>t. None) \<rparr>"

section \<open>Invariants of the stream\<close>

text \<open>
  What holds in every state that a stream reaches: the Messages channel has been closed
  once when \<open>retry\<close> has exited and not before, the wait group counts the running
  \<open>retry\<close>, every response body is either awaiting its deferred close or closed by
  \<open>retry\<close>, and the done channel is closed exactly when \<open>Stop\<close> has been entered.
\<close>

definition unwinding :: "'p retry_pc \<Rightarrow> bool" where
  "unwinding l = (l = D_GroupDone \<or> l = D_CloseMessages \<or> l = Exited)"

definition lifecycle :: "('b, 'p) Stream \<Rightarrow> bool" where
  "lifecycle s =
     (Messages_closes s = (if task s = Exited then 1 else 0) \<and>
      group s = (if task s = D_CloseMessages \<or> task s = Exited then 0 else 1) \<and>
      (if unwinding (task s)
       then deferred s = [] \<and> (\<forall>b<opened s. b \<in> closed_by_retry s)
       else (\<forall>b<opened s. b \<in> set (deferred s))) \<and>
      done_closed s = (stopper s \<noteq> S_Idle \<or> 0 < returns s) \<and>
      (returns s = 0 \<or> group s = 0))"

text \<open>
  The statements of \<open>retry\<close> from which no further read can follow once done is
  closed.
\<close>

definition past_receive :: "'p retry_pc \<Rightarrow> bool" where
  "past_receive l =
     (case l of L_Do \<Rightarrow> False | L_SendErr err \<Rightarrow> False | L_Receive r \<Rightarrow> False | _ \<Rightarrow> True)"

definition in_order :: "'p decoders \<Rightarrow> ('b, 'p) Stream \<Rightarrow> bool" where
  "in_order ds s =
     (sent s @ pending s @ lost s = map (getMessage ds) (filter (\<lambda>d. d \<noteq> []) (framed s)) \<and>
      (lost s = [] \<or> (length (lost s) = 1 \<and> done_closed s \<and> past_receive (task s))))"

text \<open>
  A client error has been delivered only when \<open>retry\<close> is on its way out.
\<close>

definition leaving :: "'p retry_pc \<Rightarrow> bool" where
  "leaving l = (l = D_Bodies \<or> unwinding l)"

definition unreported :: "('b, 'p) Stream \<Rightarrow> bool" where
  "unreported s = (failure s = None \<or> leaving (task s))"

text \<open>
  How far \<open>retry\<close> is from its exit once done is closed, counted in the statements it
  can still run, and the step it can take by itself then: the done case of the select,
  the done case of sleepOrDone, or its next statement; none while it waits for the HTTP
  client, the reader or the receiver of the send of line 145.
\<close>

definition rank :: "'p retry_pc \<Rightarrow> nat" where
  "rank l =
     (case l of
        Exited \<Rightarrow> 0
      | D_CloseMessages \<Rightarrow> 1
      | D_GroupDone \<Rightarrow> 2
      | D_Bodies \<Rightarrow> 3
      | L_Loop \<Rightarrow> 4
      | L_SendErr err \<Rightarrow> 4
      | L_Sleep \<Rightarrow> 5
      | L_Close \<Rightarrow> 6
      | L_Reset \<Rightarrow> 7
      | L_Receive R_Loop \<Rightarrow> 8
      | L_Receive (R_Select m) \<Rightarrow> 9
      | L_Receive R_Read \<Rightarrow> 10
      | L_Do \<Rightarrow> 11)"

definition own_move :: "'p retry_pc \<Rightarrow> action option" where
  "own_move l =
     (case l of
        L_Do \<Rightarrow> None
      | L_SendErr err \<Rightarrow> None
      | L_Receive R_Read \<Rightarrow> None
      | L_Receive (R_Select m) \<Rightarrow> Some Select_done
      | L_Sleep \<Rightarrow> Some Wake
      | Exited \<Rightarrow> None
      | _ \<Rightarrow> Some Task)"

section \<open>Properties of the classifier\<close>

lemmas json_eval =
  parse_json_def lex_start_def is_space_def emit_def pstep_def deliver_def push_def scalar_def
  maxNestingDepth_def flush_def is_digit_def is_numchar_def valid_number_def valid_frac_def
  valid_exp_def unescape_def hexval_def after_u_def float_overflow_def mantissa_def
  digits_val_def

lemmas classify_eval =
  getMessage_def unmarshalMap_def decodeMessage_def hasPath_def echo_decoders_def

lemma decodeMessage_table: "decodeMessage ds token data = first_match ds token data"
  by (simp add: decodeMessage_def first_match_def shape_table_def case_prod_beta)

lemma getMessage_by_value:
  "getMessage ds token =
     (case parse_json token of
        None \<Rightarrow> Msg_Error SyntaxError
      | Some v \<Rightarrow>
          if v = JNull then Msg_Data NilMap
          else if \<not> is_object v then Msg_Error (UnmarshalTypeError (value_kind v))
          else (case bad_number v of
                  Some n \<Rightarrow> Msg_Error (UnmarshalTypeError (''number '' @ n))
                | None \<Rightarrow> first_match ds token (GoMap (map_of (rev (members v))))))"
proof (cases "parse_json token")
  case None
  then show ?thesis by (simp add: getMessage_def unmarshalMap_def)
next
  case (Some v)
  show ?thesis
  proof (cases v)
    case JNull
    with Some show ?thesis
      by (simp add: getMessage_def unmarshalMap_def decodeMessage_def hasPath_def)
  next
    case (JObject ms)
    with Some show ?thesis
      by (simp add: getMessage_def unmarshalMap_def decodeMessage_table is_object_def
          members_def split: option.splits)
  qed (use Some in \<open>simp_all add: getMessage_def unmarshalMap_def is_object_def value_kind_def\<close>)
qed

text \<open>
  C2, as stated: for every token that parses as a JSON object the first listed key that
  is present decides the variant. The token below parses as an object whose only key is
  retweet_count, yet no Tweet is produced: the number 1e400 is outside the float64
  range, json.Unmarshal into the data map returns that error, and \<open>getMessage\<close>
  returns it (lines 208 to 211) before \<open>decodeMessage\<close> looks at any key.
\<close>

theorem classifier_range_counterexample:
  "parses_as_object ''{\"retweet_count\":1e400}'' \<and>
   parse_json ''{\"retweet_count\":1e400}'' =
     Some (JObject [(''retweet_count'', JNumber ''1e400'')]) \<and>
   getMessage (echo_decoders (\<lambda>t. None)) ''{\"retweet_count\":1e400}'' =
     Msg_Error (UnmarshalTypeError ''number 1e400'')"
  by (simp add: parses_as_object_def is_object_def classify_eval json_eval)

text \<open>
  C2, amended. For every token that parses as a JSON object all of whose numbers are in
  the float64 range, the classifier looks for the keys retweet_count, direct_message,
  delete, scrub_geo, limit, status_withheld, user_withheld, disconnect, warning, friends,
  event, matching_rules in this order among the top-level keys of the object; the first
  one present decides the variant, an envelope is delivered as its inner field, and the
  data map is delivered when none is present. For a token that parses as a JSON object
  holding a number outside the float64 range the result is the DecodeError of that
  number. \<open>decodeMessage\<close> itself searches the table front to back for every data map.
\<close>

theorem classifier_first_match_wins:
  "map fst (shape_table ds token) =
     [''retweet_count'', ''direct_message'', ''delete'', ''scrub_geo'', ''limit'',
      ''status_withheld'', ''user_withheld'', ''disconnect'', ''warning'', ''friends'',
      ''event'', ''matching_rules''] \<and>
   decodeMessage ds token data =
     (case find (\<lambda>(key, m). hasPath data key) (shape_table ds token) of
        None \<Rightarrow> Msg_Data data
      | Some (key, m) \<Rightarrow> m) \<and>
   (parse_json token = Some (JObject ms) \<and> bad_members ms = None \<longrightarrow>
      getMessage ds token =
        (case find (\<lambda>(key, m). key \<in> fst ` set ms) (shape_table ds token) of
           None \<Rightarrow> Msg_Data (GoMap (map_of (rev ms)))
         | Some (key, m) \<Rightarrow> m)) \<and>
   (parse_json token = Some (JObject ms) \<and> bad_members ms = Some n \<longrightarrow>
      getMessage ds token = Msg_Error (UnmarshalTypeError (''number '' @ n)))"
proof -
  have table: "decodeMessage ds token d =
     (case find (\<lambda>(key, m). hasPath d key) (shape_table ds token) of
        None \<Rightarrow> Msg_Data d
      | Some (key, m) \<Rightarrow> m)" for d
    using decodeMessage_table [of ds token d] by (simp add: first_match_def)
  have keys: "map fst (shape_table ds token) =
     [''retweet_count'', ''direct_message'', ''delete'', ''scrub_geo'', ''limit'',
      ''status_withheld'', ''user_withheld'', ''disconnect'', ''warning'', ''friends'',
      ''event'', ''matching_rules'']"
    by (simp add: shape_table_def)
  have present: "hasPath (GoMap (map_of (rev ms))) key = (key \<in> fst ` set ms)" for key
    by (simp add: hasPath_def map_of_eq_None_iff)
  have in_range: "getMessage ds token =
        (case find (\<lambda>(key, m). key \<in> fst ` set ms) (shape_table ds token) of
           None \<Rightarrow> Msg_Data (GoMap (map_of (rev ms)))
         | Some (key, m) \<Rightarrow> m)"
    if "parse_json token = Some (JObject ms) \<and> bad_members ms = None"
  proof -
    from that have "unmarshalMap token = Inr (GoMap (map_of (rev ms)))"
      by (simp add: unmarshalMap_def)
    then have "getMessage ds token = decodeMessage ds token (GoMap (map_of (rev ms)))"
      by (simp add: getMessage_def)
    then show ?thesis
      by (simp only: table present)
  qed
  have out_of_range: "getMessage ds token = Msg_Error (UnmarshalTypeError (''number '' @ n))"
    if "parse_json token = Some (JObject ms) \<and> bad_members ms = Some n"
    using that by (simp add: getMessage_def unmarshalMap_def)
  from table [of data] keys in_range out_of_range show ?thesis
    by simp
qed

theorem classifier_first_match_wins_witness:
  "parse_json ''{\"limit\":{\"track\":5},\"delete\":{\"status\":{\"id\":\"1\"}}}'' =
     Some (JObject [(''limit'', JObject [(''track'', JNumber ''5'')]),
                    (''delete'', JObject [(''status'', JObject [(''id'', JString ''1'')])])]) \<and>
   bad_members [(''limit'', JObject [(''track'', JNumber ''5'')]),
                (''delete'', JObject [(''status'', JObject [(''id'', JString ''1'')])])] = None \<and>
   getMessage (echo_decoders (\<lambda>t. None))
       ''{\"limit\":{\"track\":5},\"delete\":{\"status\":{\"id\":\"1\"}}}'' =
     Msg_StatusDeletion ''{\"limit\":{\"track\":5},\"delete\":{\"status\":{\"id\":\"1\"}}}'' \<and>
   parse_json ''{\"retweet_count\":1e400}'' =
     Some (JObject [(''retweet_count'', JNumber ''1e400'')]) \<and>
   bad_members [(''retweet_count'', JNumber ''1e400'')] = Some ''1e400'' \<and>
   getMessage (echo_decoders (\<lambda>t. None)) ''{\"retweet_count\":1e400}'' =
     Msg_Error (UnmarshalTypeError ''number 1e400'')"
proof -
  let ?token = "''{\"limit\":{\"track\":5},\"delete\":{\"status\":{\"id\":\"1\"}}}''"
  let ?ms = "[(''limit'', JObject [(''track'', JNumber ''5'')]),
              (''delete'', JObject [(''status'', JObject [(''id'', JString ''1'')])])]"
  let ?big = "''{\"retweet_count\":1e400}''"
  let ?bs = "[(''retweet_count'', JNumber ''1e400'')]"
  have p: "parse_json ?token = Some (JObject ?ms)"
    by (simp add: json_eval)
  have b: "bad_members ?ms = None"
    by (simp add: json_eval)
  have p': "parse_json ?big = Some (JObject ?bs)"
    by (simp add: json_eval)
  have b': "bad_members ?bs = Some ''1e400''"
    by (simp add: json_eval)
  from classifier_first_match_wins [of "echo_decoders (\<lambda>t. None)" ?token _ ?ms] p b
  have "getMessage (echo_decoders (\<lambda>t. None)) ?token =
     (case find (\<lambda>(key, m). key \<in> fst ` set ?ms) (shape_table (echo_decoders (\<lambda>t. None)) ?token) of
        None \<Rightarrow> Msg_Data (GoMap (map_of (rev ?ms)))
      | Some (key, m) \<Rightarrow> m)"
    by blast
  then have first: "getMessage (echo_decoders (\<lambda>t. None)) ?token = Msg_StatusDeletion ?token"
    by (simp add: shape_table_def echo_decoders_def)
  from classifier_first_match_wins [of "echo_decoders (\<lambda>t. None)" ?big _ ?bs "''1e400''"] p' b'
  have "getMessage (echo_decoders (\<lambda>t. None)) ?big =
      Msg_Error (UnmarshalTypeError (''number '' @ ''1e400''))"
    by blast
  then have second: "getMessage (echo_decoders (\<lambda>t. None)) ?big =
      Msg_Error (UnmarshalTypeError ''number 1e400'')"
    by simp
  from p b first p' b' second show ?thesis
    by (simp only: simp_thms)
qed

text \<open>
  C3, as stated: every token that does not parse as a JSON object gives a DecodeError, and
  a parsed object without a listed key gives the data map. It fails both ways: the token
  \<^verbatim>\<open>null\<close> is not an object and gives the nil data map, and an object that
  holds a number outside the float64 range gives a DecodeError.
\<close>

theorem classification_counterexample:
  "\<not> parses_as_object ''null'' \<and>
   getMessage (echo_decoders (\<lambda>t. None)) ''null'' = Msg_Data NilMap \<and>
   parses_as_object ''{\"a\":1e400}'' \<and>
   getMessage (echo_decoders (\<lambda>t. None)) ''{\"a\":1e400}'' =
     Msg_Error (UnmarshalTypeError ''number 1e400'')"
  by (simp add: parses_as_object_def is_object_def classify_eval json_eval)

text \<open>
  C3, amended. Every token gets exactly one result, decided by how json.Unmarshal reads
  it: a DecodeError for a syntax error, for a value that is neither null nor an object,
  and for an object that holds a number outside the float64 range; the nil data map for
  null; otherwise the variant of the first listed key that is present, and the data map
  with the parsed entries (for a repeated key the last one) when none is.
\<close>

theorem classification_total:
  "(parse_json token = None \<longrightarrow> getMessage ds token = Msg_Error SyntaxError) \<and>
   (parse_json token = Some JNull \<longrightarrow> getMessage ds token = Msg_Data NilMap) \<and>
   (parse_json token = Some v \<and> v \<noteq> JNull \<and> \<not> is_object v \<longrightarrow>
      getMessage ds token = Msg_Error (UnmarshalTypeError (value_kind v))) \<and>
   (parse_json token = Some (JObject ms) \<and> bad_members ms = Some n \<longrightarrow>
      getMessage ds token = Msg_Error (UnmarshalTypeError (''number '' @ n))) \<and>
   (parse_json token = Some (JObject ms) \<and> bad_members ms = None \<longrightarrow>
      getMessage ds token =
        (case find (\<lambda>(key, m). hasPath (GoMap (map_of (rev ms))) key) (shape_table ds token) of
           None \<Rightarrow> Msg_Data (GoMap (map_of (rev ms)))
         | Some (key, m) \<Rightarrow> m))"
  using getMessage_by_value [of ds token]
  by (auto simp: is_object_def members_def first_match_def)

theorem classification_total_witness:
  "getMessage (echo_decoders (\<lambda>t. None)) ''{\"unrecognized_key\":true}'' =
     Msg_Data (GoMap [''unrecognized_key'' \<mapsto> JBool True]) \<and>
   hasPath (GoMap [''unrecognized_key'' \<mapsto> JBool True]) ''unrecognized_key'' \<and>
   getMessage (echo_decoders (\<lambda>t. None)) ''{not json'' = Msg_Error SyntaxError"
proof -
  have p1: "parse_json ''{\"unrecognized_key\":true}'' =
      Some (JObject [(''unrecognized_key'', JBool True)])"
    by (simp add: json_eval)
  have b1: "bad_members [(''unrecognized_key'', JBool True)] = None"
    by simp
  have p2: "parse_json ''{not json'' = None"
    by (simp add: json_eval)
  from classification_total
         [of "''{\"unrecognized_key\":true}''" "echo_decoders (\<lambda>t. None)" _
             "[(''unrecognized_key'', JBool True)]"]
       p1 b1
  have "getMessage (echo_decoders (\<lambda>t. None)) ''{\"unrecognized_key\":true}'' =
      Msg_Data (GoMap [''unrecognized_key'' \<mapsto> JBool True])"
    by (simp add: shape_table_def hasPath_def)
  moreover from classification_total [of "''{not json''" "echo_decoders (\<lambda>t. None)"] p2
  have "getMessage (echo_decoders (\<lambda>t. None)) ''{not json'' = Msg_Error SyntaxError"
    by simp
  ultimately show ?thesis by (simp add: hasPath_def)
qed

text \<open>
  C9, as stated: when a shape is selected and its structured decode fails, the result is
  a DecodeError. \<open>decodeMessage\<close> drops the error that json.Unmarshal returns: for the
  token below the Tweet shape is selected, the decode of the Tweet reports an error (in Go
  the number 5 does not fit the string field ID), and the Tweet is delivered.
\<close>

theorem decode_failure_counterexample:
  "hasPath (GoMap [''retweet_count'' \<mapsto> JNumber ''0'', ''id'' \<mapsto> JNumber ''5'']) ''retweet_count'' \<and>
   snd (unmarshalTweet (echo_decoders (\<lambda>t. Some (UnmarshalTypeError ''number'')))
          ''{\"retweet_count\":0,\"id\":5}'') = Some (UnmarshalTypeError ''number'') \<and>
   getMessage (echo_decoders (\<lambda>t. Some (UnmarshalTypeError ''number'')))
       ''{\"retweet_count\":0,\"id\":5}'' = Msg_Tweet ''{\"retweet_count\":0,\"id\":5}''"
  by (simp add: classify_eval json_eval)

text \<open>
  C9, amended. The structured decode of the selected shape cannot make the classifier
  produce a DecodeError: \<open>decodeMessage\<close> never returns an error, its result is the
  same when every decode error is replaced by success, and \<open>getMessage\<close> returns an
  error exactly when the decode of the token into the data map fails.
\<close>

theorem decode_failure_is_dropped:
  "decodeMessage ds token data \<noteq> Msg_Error err \<and>
   decodeMessage (silenced ds) token data = decodeMessage ds token data \<and>
   (getMessage ds token = Msg_Error err) = (unmarshalMap token = Inl err)"
proof -
  have never: "decodeMessage ds token d \<noteq> Msg_Error err" for d
    by (simp add: decodeMessage_def case_prod_beta)
  have same: "decodeMessage (silenced ds) token data = decodeMessage ds token data"
    by (simp add: decodeMessage_def silenced_def case_prod_beta)
  have "(getMessage ds token = Msg_Error err) = (unmarshalMap token = Inl err)"
    using never by (cases "unmarshalMap token") (simp_all add: getMessage_def)
  with never same show ?thesis by simp
qed

text \<open>
  C10. A token that is valid JSON but not an object makes \<open>getMessage\<close> return the
  unmarshal error, a type error that names the kind of the value, although the bytes are
  valid JSON; the one exception is null, for which the data map stays nil and is
  returned as the untyped record.
\<close>

theorem non_object_token:
  "parse_json token = Some v \<Longrightarrow> \<not> is_object v \<Longrightarrow>
     getMessage ds token =
       (if v = JNull then Msg_Data NilMap else Msg_Error (UnmarshalTypeError (value_kind v))) \<and>
     (\<forall>key. \<not> hasPath (NilMap :: json gomap) key) \<and>
     (v = JNull \<or> value_kind v \<in> {''bool'', ''number'', ''string'', ''array''})"
  using getMessage_by_value [of ds token]
  by (cases v) (simp_all add: is_object_def value_kind_def hasPath_def)

theorem non_object_token_witness:
  "getMessage (echo_decoders (\<lambda>t. None)) ''[1,2]'' = Msg_Error (UnmarshalTypeError ''array'') \<and>
   getMessage (echo_decoders (\<lambda>t. None)) ''\"abc\"'' = Msg_Error (UnmarshalTypeError ''string'') \<and>
   getMessage (echo_decoders (\<lambda>t. None)) ''12'' = Msg_Error (UnmarshalTypeError ''number'') \<and>
   getMessage (echo_decoders (\<lambda>t. None)) ''true'' = Msg_Error (UnmarshalTypeError ''bool'') \<and>
   getMessage (echo_decoders (\<lambda>t. None)) ''null'' = Msg_Data NilMap"
proof -
  have p: "parse_json ''[1,2]'' = Some (JArray [JNumber ''1'', JNumber ''2''])"
      "parse_json ''\"abc\"'' = Some (JString ''abc'')"
      "parse_json ''12'' = Some (JNumber ''12'')"
      "parse_json ''true'' = Some (JBool True)"
      "parse_json ''null'' = Some JNull"
    by (simp_all add: json_eval)
  have o: "\<not> is_object (JArray [JNumber ''1'', JNumber ''2''])" "\<not> is_object (JString ''abc'')"
      "\<not> is_object (JNumber ''12'')" "\<not> is_object (JBool True)" "\<not> is_object JNull"
    by (simp_all add: is_object_def)
  show ?thesis
    using non_object_token [OF p(1) o(1), of "echo_decoders (\<lambda>t. None)"]
      non_object_token [OF p(2) o(2), of "echo_decoders (\<lambda>t. None)"]
      non_object_token [OF p(3) o(3), of "echo_decoders (\<lambda>t. None)"]
      non_object_token [OF p(4) o(4), of "echo_decoders (\<lambda>t. None)"]
      non_object_token [OF p(5) o(5), of "echo_decoders (\<lambda>t. None)"]
    by (simp add: value_kind_def)
qed

section \<open>Properties of the stream\<close>

lemmas stream_eval =
  step_def retry_def receive_def Stop_def stopped_def close_body_def newStream_def
  backoff_Stop_def delivered_def pending_def

lemmas example_eval = example_deps_def exponential_def echo_decoders_def

lemma run_append:
  "run D s (as @ bs) = (case run D s as of None \<Rightarrow> None | Some s' \<Rightarrow> run D s' bs)"
  by (induction as arbitrary: s) (simp_all split: option.splits)

lemma run_invariant:
  assumes "run D s0 sched = Some s"
    and "P s0"
    and "\<And>s a s'. P s \<Longrightarrow> step D s a = Some s' \<Longrightarrow> P s'"
  shows "P s"
  using assms(1,2)
proof (induction sched arbitrary: s0)
  case Nil
  then show ?case by simp
next
  case (Cons a sched)
  from Cons.prems(1) obtain s1 where s1: "step D s0 a = Some s1" and rest: "run D s1 sched = Some s"
    by (auto split: option.splits)
  from assms(3) [OF Cons.prems(2) s1] have "P s1" .
  with Cons.IH rest show ?case by blast
qed

lemma retry_at_Do:
  assumes "retry D s L_Do a = Some s'"
  shows
   "(\<exists>err. a = Do_returns (DoError err) \<and> s' = s\<lparr>task := L_SendErr err\<rparr>) \<or>
    (a = Do_returns (DoResponse 200) \<and>
      s' = s\<lparr>opened := Suc (opened s), deferred := opened s # deferred s,
               body := Some (opened s), task := L_Receive R_Loop\<rparr>) \<or>
    (a = Do_returns (DoResponse 503) \<and>
      s' = s\<lparr>opened := Suc (opened s), deferred := opened s # deferred s,
               body := Some (opened s),
               wait := fst (NextBackOff (expPolicy D) (expBackOff s)),
               expBackOff := snd (NextBackOff (expPolicy D) (expBackOff s)),
               task := L_Close\<rparr>) \<or>
    (\<exists>status. a = Do_returns (DoResponse status) \<and> (status = 420 \<or> status = 429) \<and>
      s' = s\<lparr>opened := Suc (opened s), deferred := opened s # deferred s,
               body := Some (opened s),
               wait := fst (NextBackOff (aggPolicy D) (aggExpBackOff s)),
               aggExpBackOff := snd (NextBackOff (aggPolicy D) (aggExpBackOff s)),
               task := L_Close\<rparr>) \<or>
    (\<exists>status. a = Do_returns (DoResponse status) \<and> status \<notin> {200, 503, 420, 429} \<and>
      s' = s\<lparr>opened := Suc (opened s), deferred := opened s # deferred s,
               body := Some (opened s),
               closed_by_retry := insert (opened s) (closed_by_retry s),
               task := D_Bodies\<rparr>)"
proof (cases a)
  case (Do_returns r)
  show ?thesis
  proof (cases r)
    case (DoError err)
    with assms Do_returns show ?thesis by (simp add: retry_def)
  next
    case (DoResponse status)
    with assms Do_returns show ?thesis
      by (auto simp: retry_def Let_def case_prod_beta close_body_def split: if_splits)
  qed
qed (use assms in \<open>simp_all add: retry_def\<close>)

lemma retry_at_Receive:
  assumes "retry D s (L_Receive r) a = Some s'"
  shows
   "(r = R_Loop \<and> a = Task \<and>
       s' = s\<lparr>task := if stopped s then L_Reset else L_Receive R_Read\<rparr>) \<or>
    (r = R_Read \<and> a = Read_returns ReadError \<and> s' = s\<lparr>task := L_Reset\<rparr>) \<or>
    (r = R_Read \<and> a = Read_returns (ReadData []) \<and>
       s' = s\<lparr>framed := framed s @ [[]], task := L_Receive R_Loop\<rparr>) \<or>
    (\<exists>d. r = R_Read \<and> a = Read_returns (ReadData d) \<and> d \<noteq> [] \<and>
       s' = s\<lparr>framed := framed s @ [d],
                task := L_Receive (R_Select (getMessage (codec D) d))\<rparr>) \<or>
    (\<exists>m. r = R_Select m \<and> a = Receive \<and>
       s' = s\<lparr>sent := sent s @ [m], task := L_Receive R_Loop\<rparr>) \<or>
    (\<exists>m. r = R_Select m \<and> a = Select_done \<and> done_closed s \<and>
       s' = s\<lparr>lost := lost s @ [m], task := L_Reset\<rparr>)"
proof (cases r)
  case R_Loop
  with assms show ?thesis
    by (cases a) (auto simp: retry_def receive_def)
next
  case R_Read
  show ?thesis
  proof (cases a)
    case (Read_returns x)
    with assms R_Read show ?thesis
      by (cases x) (auto simp: retry_def receive_def split: if_splits)
  qed (use assms R_Read in \<open>simp_all add: retry_def receive_def\<close>)
next
  case (R_Select m)
  with assms show ?thesis
    by (cases a) (auto simp: retry_def receive_def stopped_def split: if_splits)
qed


lemma retry_at_others:
  assumes "retry D s l a = Some s'" and "l \<noteq> L_Do" and "\<forall>r. l \<noteq> L_Receive r"
  shows "a \<noteq> Stop_step \<and>
    ((l = L_Loop \<and> a = Task \<and> s' = s\<lparr>task := if stopped s then D_Bodies else L_Do\<rparr>) \<or>
     (\<exists>err. l = L_SendErr err \<and> a = Receive \<and>
        s' = s\<lparr>failure := Some err, task := D_Bodies\<rparr>) \<or>
     (l = L_Reset \<and> a = Task \<and>
        s' = s\<lparr>expBackOff := Reset (expPolicy D) (expBackOff s),
                 aggExpBackOff := Reset (aggPolicy D) (aggExpBackOff s), task := L_Close\<rparr>) \<or>
     (l = L_Close \<and> a = Task \<and>
        s' = (close_body s)\<lparr>task := if wait s = backoff_Stop then D_Bodies else L_Sleep\<rparr>) \<or>
     (l = L_Sleep \<and> a = Timer \<and> s' = s\<lparr>slept := slept s @ [wait s], task := L_Loop\<rparr>) \<or>
     (l = L_Sleep \<and> a = Wake \<and> done_closed s \<and> s' = s\<lparr>task := L_Loop\<rparr>) \<or>
     (l = D_Bodies \<and> a = Task \<and>
        s' = s\<lparr>closed_by_retry := closed_by_retry s \<union> set (deferred s), deferred := [],
                 task := D_GroupDone\<rparr>) \<or>
     (l = D_GroupDone \<and> a = Task \<and>
        s' = (if group s = 0 then s\<lparr>panicked := True\<rparr>
              else s\<lparr>group := group s - 1, task := D_CloseMessages\<rparr>)) \<or>
     (l = D_CloseMessages \<and> a = Task \<and>
        s' = (if 0 < Messages_closes s
              then s\<lparr>Messages_closes := Suc (Messages_closes s), panicked := True\<rparr>
              else s\<lparr>Messages_closes := Suc (Messages_closes s), task := Exited\<rparr>)))"
proof (cases l)
  case L_Loop
  with assms(1) show ?thesis by (cases a) (auto simp: retry_def)
next
  case (L_SendErr err)
  with assms(1) show ?thesis by (cases a) (auto simp: retry_def)
next
  case L_Reset
  with assms(1) show ?thesis by (cases a) (auto simp: retry_def)
next
  case L_Close
  with assms(1) show ?thesis by (cases a) (auto simp: retry_def split: if_splits)
next
  case L_Sleep
  with assms(1) show ?thesis by (cases a) (auto simp: retry_def stopped_def split: if_splits)
next
  case D_Bodies
  with assms(1) show ?thesis by (cases a) (auto simp: retry_def)
next
  case D_GroupDone
  with assms(1) show ?thesis by (cases a) (auto simp: retry_def split: if_splits)
next
  case D_CloseMessages
  with assms(1) show ?thesis by (cases a) (auto simp: retry_def split: if_splits)
next
  case Exited
  with assms(1) show ?thesis by (simp add: retry_def)
qed (use assms(2,3) in simp_all)

lemma retry_transitions [consumes 1, case_names loop do_err do_200 do_503 do_429 do_other
    send_err receive_loop read_err read_empty read_data select_send select_done reset
    close timer wake bodies group_done close_messages]:
  assumes "retry D s (task s) a = Some s'"
  obtains
    (loop) "task s = L_Loop" "a = Task"
      "s' = s\<lparr>task := if stopped s then D_Bodies else L_Do\<rparr>"
  | (do_err) err where "task s = L_Do" "a = Do_returns (DoError err)"
      "s' = s\<lparr>task := L_SendErr err\<rparr>"
  | (do_200) "task s = L_Do" "a = Do_returns (DoResponse 200)"
      "s' = s\<lparr>opened := Suc (opened s), deferred := opened s # deferred s,
               body := Some (opened s), task := L_Receive R_Loop\<rparr>"
  | (do_503) "task s = L_Do" "a = Do_returns (DoResponse 503)"
      "s' = s\<lparr>opened := Suc (opened s), deferred := opened s # deferred s,
               body := Some (opened s),
               wait := fst (NextBackOff (expPolicy D) (expBackOff s)),
               expBackOff := snd (NextBackOff (expPolicy D) (expBackOff s)),
               task := L_Close\<rparr>"
  | (do_429) status where "task s = L_Do" "a = Do_returns (DoResponse status)"
      "status = 420 \<or> status = 429"
      "s' = s\<lparr>opened := Suc (opened s), deferred := opened s # deferred s,
               body := Some (opened s),
               wait := fst (NextBackOff (aggPolicy D) (aggExpBackOff s)),
               aggExpBackOff := snd (NextBackOff (aggPolicy D) (aggExpBackOff s)),
               task := L_Close\<rparr>"
  | (do_other) status where "task s = L_Do" "a = Do_returns (DoResponse status)"
      "status \<notin> {200, 503, 420, 429}"
      "s' = s\<lparr>opened := Suc (opened s), deferred := opened s # deferred s,
               body := Some (opened s),
               closed_by_retry := insert (opened s) (closed_by_retry s),
               task := D_Bodies\<rparr>"
  | (send_err) err where "task s = L_SendErr err" "a = Receive"
      "s' = s\<lparr>failure := Some err, task := D_Bodies\<rparr>"
  | (receive_loop) "task s = L_Receive R_Loop" "a = Task"
      "s' = s\<lparr>task := if stopped s then L_Reset else L_Receive R_Read\<rparr>"
  | (read_err) "task s = L_Receive R_Read" "a = Read_returns ReadError"
      "s' = s\<lparr>task := L_Reset\<rparr>"
  | (read_empty) "task s = L_Receive R_Read" "a = Read_returns (ReadData [])"
      "s' = s\<lparr>framed := framed s @ [[]], task := L_Receive R_Loop\<rparr>"
  | (read_data) d where "task s = L_Receive R_Read" "a = Read_returns (ReadData d)" "d \<noteq> []"
      "s' = s\<lparr>framed := framed s @ [d],
               task := L_Receive (R_Select (getMessage (codec D) d))\<rparr>"
  | (select_send) m where "task s = L_Receive (R_Select m)" "a = Receive"
      "s' = s\<lparr>sent := sent s @ [m], task := L_Receive R_Loop\<rparr>"
  | (select_done) m where "task s = L_Receive (R_Select m)" "a = Select_done" "done_closed s"
      "s' = s\<lparr>lost := lost s @ [m], task := L_Reset\<rparr>"
  | (reset) "task s = L_Reset" "a = Task"
      "s' = s\<lparr>expBackOff := Reset (expPolicy D) (expBackOff s),
               aggExpBackOff := Reset (aggPolicy D) (aggExpBackOff s), task := L_Close\<rparr>"
  | (close) "task s = L_Close" "a = Task"
      "s' = (close_body s)\<lparr>task := if wait s = backoff_Stop then D_Bodies else L_Sleep\<rparr>"
  | (timer) "task s = L_Sleep" "a = Timer"
      "s' = s\<lparr>slept := slept s @ [wait s], task := L_Loop\<rparr>"
  | (wake) "task s = L_Sleep" "a = Wake" "done_closed s"
      "s' = s\<lparr>task := L_Loop\<rparr>"
  | (bodies) "task s = D_Bodies" "a = Task"
      "s' = s\<lparr>closed_by_retry := closed_by_retry s \<union> set (deferred s), deferred := [],
               task := D_GroupDone\<rparr>"
  | (group_done) "task s = D_GroupDone" "a = Task"
      "s' = (if group s = 0 then s\<lparr>panicked := True\<rparr>
             else s\<lparr>group := group s - 1, task := D_CloseMessages\<rparr>)"
  | (close_messages) "task s = D_CloseMessages" "a = Task"
      "s' = (if 0 < Messages_closes s
             then s\<lparr>Messages_closes := Suc (Messages_closes s), panicked := True\<rparr>
             else s\<lparr>Messages_closes := Suc (Messages_closes s), task := Exited\<rparr>)"
proof (cases "task s = L_Do")
  case True
  with assms have "retry D s L_Do a = Some s'" by simp
  from retry_at_Do [OF this] True show ?thesis
    using do_err do_200 do_503 do_429 do_other by blast
next
  case False
  show ?thesis
  proof (cases "\<exists>r. task s = L_Receive r")
    case True
    then obtain r where r: "task s = L_Receive r" ..
    with assms have "retry D s (L_Receive r) a = Some s'" by simp
    from retry_at_Receive [OF this] r show ?thesis
      using receive_loop read_err read_empty read_data select_send select_done by blast
  next
    case no: False
    then have "\<forall>r. task s \<noteq> L_Receive r" by simp
    from retry_at_others [OF assms False this] show ?thesis
      using loop send_err reset close timer wake bodies group_done close_messages by blast
  qed
qed


lemma Stop_characterised:
  assumes "Stop s = Some s'"
  shows
   "(stopper s = S_Idle \<and> \<not> done_closed s \<and> s' = s\<lparr>done_closed := True, stopper := S_Body\<rparr>) \<or>
    (stopper s = S_Idle \<and> done_closed s \<and> s' = s\<lparr>panicked := True\<rparr>) \<or>
    (stopper s = S_Body \<and> body s = None \<and> s' = s\<lparr>stopper := S_Wait\<rparr>) \<or>
    (\<exists>b. stopper s = S_Body \<and> body s = Some b \<and>
       s' = s\<lparr>closed_by_Stop := insert b (closed_by_Stop s), stopper := S_Wait\<rparr>) \<or>
    (stopper s = S_Wait \<and> group s = 0 \<and> s' = s\<lparr>stopper := S_Idle, returns := Suc (returns s)\<rparr>)"
proof (cases "stopper s")
  case S_Idle
  with assms show ?thesis by (cases "done_closed s") (simp_all add: Stop_def)
next
  case S_Body
  with assms show ?thesis by (cases "body s") (simp_all add: Stop_def)
next
  case S_Wait
  with assms show ?thesis by (cases "group s = 0") (simp_all add: Stop_def)
qed

lemma Stop_transitions [consumes 1, case_names enter again body_nil body_close wait]:
  assumes "Stop s = Some s'"
  obtains
    (enter) "stopper s = S_Idle" "\<not> done_closed s"
      "s' = s\<lparr>done_closed := True, stopper := S_Body\<rparr>"
  | (again) "stopper s = S_Idle" "done_closed s" "s' = s\<lparr>panicked := True\<rparr>"
  | (body_nil) "stopper s = S_Body" "body s = None" "s' = s\<lparr>stopper := S_Wait\<rparr>"
  | (body_close) b where "stopper s = S_Body" "body s = Some b"
      "s' = s\<lparr>closed_by_Stop := insert b (closed_by_Stop s), stopper := S_Wait\<rparr>"
  | (wait) "stopper s = S_Wait" "group s = 0"
      "s' = s\<lparr>stopper := S_Idle, returns := Suc (returns s)\<rparr>"
  using Stop_characterised [OF assms] enter again body_nil body_close wait by blast

lemma step_cases [consumes 1, case_names Stop retry]:
  assumes "step D s a = Some s'"
  obtains
    (Stop) "\<not> panicked s" "a = Stop_step" "Stop s = Some s'"
  | (retry) "\<not> panicked s" "a \<noteq> Stop_step" "retry D s (task s) a = Some s'"
proof (cases "a = Stop_step")
  case True
  with assms Stop show ?thesis by (cases "panicked s") (simp_all add: step_def)
next
  case False
  with assms retry show ?thesis by (cases "panicked s") (simp_all add: step_def)
qed



section \<open>The invariants hold in every reachable state\<close>

lemma lifecycle_init: "lifecycle (newStream e0 a0)"
  by (simp add: lifecycle_def newStream_def unwinding_def)

lemma lifecycle_step:
  assumes "lifecycle s" and "step D s a = Some s'"
  shows "lifecycle s'"
  using assms(2)
proof (cases rule: step_cases)
  case Stop
  from Stop(3) show ?thesis
  proof (cases rule: Stop_transitions)
    case enter
    with assms(1) show ?thesis by (auto simp: lifecycle_def split: if_splits)
  next
    case again
    with assms(1) show ?thesis by (auto simp: lifecycle_def split: if_splits)
  next
    case body_nil
    with assms(1) show ?thesis by (auto simp: lifecycle_def split: if_splits)
  next
    case (body_close b)
    with assms(1) show ?thesis by (auto simp: lifecycle_def split: if_splits)
  next
    case wait
    with assms(1) show ?thesis by (auto simp: lifecycle_def split: if_splits)
  qed
next
  case retry
  from retry(3) show ?thesis
  proof (cases rule: retry_transitions)
    case loop
    with assms(1) show ?thesis
      by (auto simp: lifecycle_def unwinding_def stopped_def)
  next
    case (do_err err)
    with assms(1) show ?thesis
      by (auto simp: lifecycle_def unwinding_def)
  next
    case do_200
    with assms(1) show ?thesis
      by (auto simp: lifecycle_def unwinding_def less_Suc_eq)
  next
    case do_503
    with assms(1) show ?thesis
      by (auto simp: lifecycle_def unwinding_def less_Suc_eq)
  next
    case (do_429 status)
    with assms(1) show ?thesis
      by (auto simp: lifecycle_def unwinding_def less_Suc_eq)
  next
    case (do_other status)
    with assms(1) show ?thesis
      by (auto simp: lifecycle_def unwinding_def less_Suc_eq)
  next
    case (send_err err)
    with assms(1) show ?thesis
      by (auto simp: lifecycle_def unwinding_def)
  next
    case receive_loop
    with assms(1) show ?thesis
      by (auto simp: lifecycle_def unwinding_def stopped_def)
  next
    case read_err
    with assms(1) show ?thesis
      by (auto simp: lifecycle_def unwinding_def)
  next
    case read_empty
    with assms(1) show ?thesis
      by (auto simp: lifecycle_def unwinding_def)
  next
    case (read_data d)
    with assms(1) show ?thesis
      by (auto simp: lifecycle_def unwinding_def)
  next
    case (select_send m)
    with assms(1) show ?thesis
      by (auto simp: lifecycle_def unwinding_def)
  next
    case (select_done m)
    with assms(1) show ?thesis
      by (auto simp: lifecycle_def unwinding_def)
  next
    case reset
    with assms(1) show ?thesis
      by (auto simp: lifecycle_def unwinding_def)
  next
    case close
    with assms(1) show ?thesis
      by (cases "body s") (auto simp: lifecycle_def unwinding_def close_body_def)
  next
    case timer
    with assms(1) show ?thesis
      by (auto simp: lifecycle_def unwinding_def)
  next
    case wake
    with assms(1) show ?thesis
      by (auto simp: lifecycle_def unwinding_def)
  next
    case bodies
    with assms(1) show ?thesis
      by (auto simp: lifecycle_def unwinding_def)
  next
    case group_done
    with assms(1) show ?thesis
      by (auto simp: lifecycle_def unwinding_def)
  next
    case close_messages
    with assms(1) show ?thesis
      by (auto simp: lifecycle_def unwinding_def)
  qed
qed

lemma lifecycle_reachable: "run D (newStream e0 a0) sched = Some s \<Longrightarrow> lifecycle s"
  by (erule run_invariant [where P = lifecycle]) (auto intro: lifecycle_init lifecycle_step)


lemma in_order_init: "in_order ds (newStream e0 a0)"
  by (simp add: in_order_def newStream_def pending_def)

lemma in_order_step:
  assumes "in_order (codec D) s" and "step D s a = Some s'"
  shows "in_order (codec D) s'"
  using assms(2)
proof (cases rule: step_cases)
  case Stop
  from Stop(3) show ?thesis
  proof (cases rule: Stop_transitions)
    case enter
    with assms(1) show ?thesis by (auto simp: in_order_def pending_def)
  next
    case again
    with assms(1) show ?thesis by (auto simp: in_order_def pending_def)
  next
    case body_nil
    with assms(1) show ?thesis by (auto simp: in_order_def pending_def)
  next
    case (body_close b)
    with assms(1) show ?thesis by (auto simp: in_order_def pending_def)
  next
    case wait
    with assms(1) show ?thesis by (auto simp: in_order_def pending_def)
  qed
next
  case retry
  from retry(3) show ?thesis
  proof (cases rule: retry_transitions)
    case loop
    with assms(1) show ?thesis
      by (auto simp: in_order_def pending_def past_receive_def stopped_def)
  next
    case (do_err err)
    with assms(1) show ?thesis
      by (auto simp: in_order_def pending_def past_receive_def)
  next
    case do_200
    with assms(1) show ?thesis
      by (auto simp: in_order_def pending_def past_receive_def)
  next
    case do_503
    with assms(1) show ?thesis
      by (auto simp: in_order_def pending_def past_receive_def)
  next
    case (do_429 status)
    with assms(1) show ?thesis
      by (auto simp: in_order_def pending_def past_receive_def)
  next
    case (do_other status)
    with assms(1) show ?thesis
      by (auto simp: in_order_def pending_def past_receive_def)
  next
    case (send_err err)
    with assms(1) show ?thesis
      by (auto simp: in_order_def pending_def past_receive_def)
  next
    case receive_loop
    with assms(1) show ?thesis
      by (auto simp: in_order_def pending_def past_receive_def stopped_def)
  next
    case read_err
    with assms(1) show ?thesis
      by (auto simp: in_order_def pending_def past_receive_def)
  next
    case read_empty
    with assms(1) show ?thesis
      by (auto simp: in_order_def pending_def past_receive_def)
  next
    case (read_data d)
    with assms(1) show ?thesis
      by (auto simp: in_order_def pending_def past_receive_def)
  next
    case (select_send m)
    with assms(1) show ?thesis
      by (auto simp: in_order_def pending_def past_receive_def)
  next
    case (select_done m)
    with assms(1) show ?thesis
      by (auto simp: in_order_def pending_def past_receive_def)
  next
    case reset
    with assms(1) show ?thesis
      by (auto simp: in_order_def pending_def past_receive_def)
  next
    case close
    with assms(1) show ?thesis
      by (cases "body s") (auto simp: in_order_def pending_def past_receive_def close_body_def)
  next
    case timer
    with assms(1) show ?thesis
      by (auto simp: in_order_def pending_def past_receive_def)
  next
    case wake
    with assms(1) show ?thesis
      by (auto simp: in_order_def pending_def past_receive_def)
  next
    case bodies
    with assms(1) show ?thesis
      by (auto simp: in_order_def pending_def past_receive_def)
  next
    case group_done
    with assms(1) show ?thesis
      by (auto simp: in_order_def pending_def past_receive_def)
  next
    case close_messages
    with assms(1) show ?thesis
      by (auto simp: in_order_def pending_def past_receive_def)
  qed
qed

lemma in_order_reachable:
  "run D (newStream e0 a0) sched = Some s \<Longrightarrow> in_order (codec D) s"
  by (erule run_invariant [where P = "in_order (codec D)"])
     (auto intro: in_order_init in_order_step)

lemma exited_step:
  assumes "task s = Exited" and "step D s a = Some s'"
  shows "task s' = Exited \<and> sent s' = sent s \<and> failure s' = failure s \<and>
    Messages_closes s' = Messages_closes s \<and> closed_by_retry s' = closed_by_retry s \<and>
    opened s' = opened s \<and> a = Stop_step"
  using assms(2)
proof (cases rule: step_cases)
  case Stop
  from Stop(3) assms(1) Stop(2) show ?thesis
    by (cases rule: Stop_transitions) simp_all
next
  case retry
  with assms(1) show ?thesis by (simp add: retry_def)
qed

lemma exited_run:
  "task s = Exited \<Longrightarrow> run D s sched = Some s' \<Longrightarrow>
     task s' = Exited \<and> sent s' = sent s \<and> failure s' = failure s \<and>
     Messages_closes s' = Messages_closes s \<and> closed_by_retry s' = closed_by_retry s \<and>
     opened s' = opened s"
proof (induction sched arbitrary: s)
  case Nil
  then show ?case by simp
next
  case (Cons a sched)
  from Cons.prems(2) obtain s1 where s1: "step D s a = Some s1" and rest: "run D s1 sched = Some s'"
    by (auto split: option.splits)
  from exited_step [OF Cons.prems(1) s1] Cons.IH [OF _ rest] show ?case by simp
qed

lemma unreported_step:
  assumes "unreported s" and "step D s a = Some s'"
  shows "unreported s'"
  using assms(2)
proof (cases rule: step_cases)
  case Stop
  from Stop(3) assms(1) show ?thesis
    by (cases rule: Stop_transitions) (simp_all add: unreported_def)
next
  case retry
  from retry(3) show ?thesis
  proof (cases rule: retry_transitions)
    case loop
    with assms(1) show ?thesis
      by (simp add: unreported_def leaving_def unwinding_def)
  next
    case (do_err err)
    with assms(1) show ?thesis
      by (simp add: unreported_def leaving_def unwinding_def)
  next
    case do_200
    with assms(1) show ?thesis
      by (simp add: unreported_def leaving_def unwinding_def)
  next
    case do_503
    with assms(1) show ?thesis
      by (simp add: unreported_def leaving_def unwinding_def)
  next
    case (do_429 status)
    with assms(1) show ?thesis
      by (simp add: unreported_def leaving_def unwinding_def)
  next
    case (do_other status)
    with assms(1) show ?thesis
      by (simp add: unreported_def leaving_def unwinding_def)
  next
    case (send_err err)
    with assms(1) show ?thesis
      by (simp add: unreported_def leaving_def unwinding_def)
  next
    case receive_loop
    with assms(1) show ?thesis
      by (simp add: unreported_def leaving_def unwinding_def)
  next
    case read_err
    with assms(1) show ?thesis
      by (simp add: unreported_def leaving_def unwinding_def)
  next
    case read_empty
    with assms(1) show ?thesis
      by (simp add: unreported_def leaving_def unwinding_def)
  next
    case (read_data d)
    with assms(1) show ?thesis
      by (simp add: unreported_def leaving_def unwinding_def)
  next
    case (select_send m)
    with assms(1) show ?thesis
      by (simp add: unreported_def leaving_def unwinding_def)
  next
    case (select_done m)
    with assms(1) show ?thesis
      by (simp add: unreported_def leaving_def unwinding_def)
  next
    case reset
    with assms(1) show ?thesis
      by (simp add: unreported_def leaving_def unwinding_def)
  next
    case close
    with assms(1) show ?thesis
      by (cases "body s") (simp_all add: unreported_def leaving_def unwinding_def close_body_def)
  next
    case timer
    with assms(1) show ?thesis
      by (simp add: unreported_def leaving_def unwinding_def)
  next
    case wake
    with assms(1) show ?thesis
      by (simp add: unreported_def leaving_def unwinding_def)
  next
    case bodies
    with assms(1) show ?thesis
      by (simp add: unreported_def leaving_def unwinding_def)
  next
    case group_done
    with assms(1) show ?thesis
      by (auto simp: unreported_def leaving_def unwinding_def)
  next
    case close_messages
    with assms(1) show ?thesis
      by (auto simp: unreported_def leaving_def unwinding_def)
  qed
qed

lemma unreported_init: "unreported (newStream e0 a0)"
  by (simp add: unreported_def newStream_def)

lemma unreported_reachable: "run D (newStream e0 a0) sched = Some s \<Longrightarrow> unreported s"
  by (erule run_invariant [where P = unreported]) (auto intro: unreported_init unreported_step)

text \<open>
  Once done is closed every step of \<open>retry\<close> brings it closer to its exit, and the
  step that \<open>retry\<close> can take by itself is enabled.
\<close>

lemma rank_step:
  assumes "lifecycle s" and "done_closed s" and "a \<noteq> Stop_step" and "step D s a = Some s'"
  shows "rank (task s') < rank (task s)"
  using assms(4)
proof (cases rule: step_cases)
  case Stop
  with assms(3) show ?thesis by simp
next
  case retry
  from retry(3) show ?thesis
  proof (cases rule: retry_transitions)
    case close
    then show ?thesis by (cases "body s") (simp_all add: rank_def close_body_def)
  next
    case group_done
    with assms(1) show ?thesis by (simp add: rank_def lifecycle_def)
  next
    case close_messages
    with assms(1) show ?thesis by (simp add: rank_def lifecycle_def)
  qed (use assms(2) in \<open>simp_all add: rank_def stopped_def\<close>)
qed

lemma own_move_enabled:
  assumes "\<not> panicked s" and "done_closed s" and "own_move (task s) = Some a"
  shows "\<exists>s'. step D s a = Some s'"
proof (cases "task s")
  case (L_Receive r)
  with assms show ?thesis
    by (cases r) (auto simp: own_move_def step_def retry_def receive_def stopped_def)
qed (use assms in \<open>auto simp: own_move_def step_def retry_def stopped_def\<close>)


section \<open>The stream: retry, Stop and receive\<close>

text \<open>
  C1. At every connection attempt, that is in every state that a stream reaches where
  \<open>retry\<close> is about to receive the answer of the HTTP client: a 503 consults the normal policy only and a 420
  or 429 the aggressive policy only, the wait they return is slept unless it is Stop,
  and on Stop the task runs to its exit without a sleep or a further attempt; any other
  status except 200 closes the body and runs to the exit at once, leaving both policies
  untouched; a client error is offered to the Messages channel, nothing else can happen
  in the task until it is received, and then the task runs to its exit.
\<close>

theorem retry_attempt:
  assumes "run D (newStream e0 a0) sched = Some s" and "task s = L_Do" and "\<not> panicked s"
  shows
    "(\<exists>s'. step D s (Do_returns (DoResponse 503)) = Some s' \<and> task s' = L_Close \<and>
        wait s' = fst (NextBackOff (expPolicy D) (expBackOff s)) \<and>
        expBackOff s' = snd (NextBackOff (expPolicy D) (expBackOff s)) \<and>
        aggExpBackOff s' = aggExpBackOff s) \<and>
     (status = 420 \<or> status = 429 \<longrightarrow>
       (\<exists>s'. step D s (Do_returns (DoResponse status)) = Some s' \<and> task s' = L_Close \<and>
          wait s' = fst (NextBackOff (aggPolicy D) (aggExpBackOff s)) \<and>
          aggExpBackOff s' = snd (NextBackOff (aggPolicy D) (aggExpBackOff s)) \<and>
          expBackOff s' = expBackOff s)) \<and>
     (step D s (Do_returns (DoResponse status)) = Some s1 \<and> task s1 = L_Close \<longrightarrow>
       (wait s1 = backoff_Stop \<longrightarrow>
          (\<exists>s'. run D s1 [Task, Task, Task, Task] = Some s' \<and> task s' = Exited \<and>
             slept s' = slept s \<and> opened s' = Suc (opened s) \<and> delivered s' = delivered s)) \<and>
       (wait s1 \<noteq> backoff_Stop \<longrightarrow>
          (\<exists>s'. run D s1 [Task, Timer] = Some s' \<and> task s' = L_Loop \<and>
             slept s' = slept s @ [wait s1]))) \<and>
     (status \<notin> {200, 503, 420, 429} \<longrightarrow>
       (\<exists>s'. run D s [Do_returns (DoResponse status), Task, Task, Task] = Some s' \<and>
          task s' = Exited \<and> slept s' = slept s \<and> opened s' = Suc (opened s) \<and>
          opened s \<in> closed_by_retry s' \<and> delivered s' = delivered s \<and>
          expBackOff s' = expBackOff s \<and> aggExpBackOff s' = aggExpBackOff s)) \<and>
     (\<exists>s2. step D s (Do_returns (DoError err)) = Some s2 \<and> task s2 = L_SendErr err \<and>
        (\<forall>a. a \<noteq> Receive \<and> a \<noteq> Stop_step \<longrightarrow> step D s2 a = None) \<and>
        (\<exists>s'. run D s2 [Receive, Task, Task, Task] = Some s' \<and> task s' = Exited \<and>
           delivered s' = delivered s @ [Msg_Error err] \<and> slept s' = slept s \<and>
           opened s' = opened s))"
proof -
  from lifecycle_reachable [OF assms(1)] assms(2)
  have counts: "group s = 1" "Messages_closes s = 0"
    by (simp_all add: lifecycle_def)
  from unreported_reachable [OF assms(1)] assms(2)
  have silent: "failure s = None"
    by (simp add: unreported_def leaving_def unwinding_def)
  note at_Do = assms(2,3) counts silent
  have normal: "\<exists>s'. step D s (Do_returns (DoResponse 503)) = Some s' \<and> task s' = L_Close \<and>
        wait s' = fst (NextBackOff (expPolicy D) (expBackOff s)) \<and>
        expBackOff s' = snd (NextBackOff (expPolicy D) (expBackOff s)) \<and>
        aggExpBackOff s' = aggExpBackOff s"
    using at_Do by (simp add: stream_eval case_prod_beta Let_def)
  have aggressive: "\<exists>s'. step D s (Do_returns (DoResponse status)) = Some s' \<and> task s' = L_Close \<and>
          wait s' = fst (NextBackOff (aggPolicy D) (aggExpBackOff s)) \<and>
          aggExpBackOff s' = snd (NextBackOff (aggPolicy D) (aggExpBackOff s)) \<and>
          expBackOff s' = expBackOff s"
    if "status = 420 \<or> status = 429"
    using that at_Do by (auto simp: stream_eval case_prod_beta Let_def)
  have after: "(wait s1 = backoff_Stop \<longrightarrow>
          (\<exists>s'. run D s1 [Task, Task, Task, Task] = Some s' \<and> task s' = Exited \<and>
             slept s' = slept s \<and> opened s' = Suc (opened s) \<and> delivered s' = delivered s)) \<and>
       (wait s1 \<noteq> backoff_Stop \<longrightarrow>
          (\<exists>s'. run D s1 [Task, Timer] = Some s' \<and> task s' = L_Loop \<and>
             slept s' = slept s @ [wait s1]))"
    if "step D s (Do_returns (DoResponse status)) = Some s1 \<and> task s1 = L_Close"
  proof -
    from that at_Do have s1: "\<not> panicked s1" "group s1 = 1" "Messages_closes s1 = 0"
      "slept s1 = slept s" "opened s1 = Suc (opened s)" "delivered s1 = delivered s"
      "task s1 = L_Close"
      by (auto simp: stream_eval case_prod_beta Let_def split: if_splits)
    then show ?thesis
      by (cases "body s1") (simp_all add: stream_eval)
  qed
  have other: "\<exists>s'. run D s [Do_returns (DoResponse status), Task, Task, Task] = Some s' \<and>
          task s' = Exited \<and> slept s' = slept s \<and> opened s' = Suc (opened s) \<and>
          opened s \<in> closed_by_retry s' \<and> delivered s' = delivered s \<and>
          expBackOff s' = expBackOff s \<and> aggExpBackOff s' = aggExpBackOff s"
    if "status \<notin> {200, 503, 420, 429}"
    using that at_Do by (simp add: stream_eval Let_def)
  have e1: "step D s (Do_returns (DoError err)) = Some (s\<lparr>task := L_SendErr err\<rparr>)"
    using at_Do by (simp add: stream_eval)
  have e2: "step D (s\<lparr>task := L_SendErr err\<rparr>) a = None"
    if "a \<noteq> Receive \<and> a \<noteq> Stop_step" for a
    using that at_Do by (cases a) (simp_all add: stream_eval)
  have e3: "\<exists>s'. run D (s\<lparr>task := L_SendErr err\<rparr>) [Receive, Task, Task, Task] = Some s' \<and>
      task s' = Exited \<and> delivered s' = delivered s @ [Msg_Error err] \<and> slept s' = slept s \<and>
      opened s' = opened s"
    using at_Do by (simp add: stream_eval)
  from e1 e2 e3 have failed: "\<exists>s2. step D s (Do_returns (DoError err)) = Some s2 \<and>
        task s2 = L_SendErr err \<and>
        (\<forall>a. a \<noteq> Receive \<and> a \<noteq> Stop_step \<longrightarrow> step D s2 a = None) \<and>
        (\<exists>s'. run D s2 [Receive, Task, Task, Task] = Some s' \<and> task s' = Exited \<and>
           delivered s' = delivered s @ [Msg_Error err] \<and> slept s' = slept s \<and>
           opened s' = opened s)"
    by simp
  from normal aggressive after other failed show ?thesis
    by blast
qed

theorem retry_attempt_witness:
  "run example_deps (newStream 5 60) [Task] = Some ((newStream 5 60)\<lparr>task := L_Do\<rparr>) \<and>
   (\<exists>s'. step example_deps ((newStream 5 60)\<lparr>task := L_Do\<rparr>) (Do_returns (DoResponse 503)) =
        Some s' \<and>
      task s' = L_Close \<and> wait s' = 5 \<and> expBackOff s' = 10 \<and> aggExpBackOff s' = 60) \<and>
   (\<exists>s'. step example_deps ((newStream 5 60)\<lparr>task := L_Do\<rparr>) (Do_returns (DoResponse 429)) =
        Some s' \<and>
      task s' = L_Close \<and> wait s' = 60 \<and> aggExpBackOff s' = 120 \<and> expBackOff s' = 5) \<and>
   (\<exists>s'. run example_deps ((newStream 5 60)\<lparr>task := L_Do\<rparr>)
        [Do_returns (DoResponse 404), Task, Task, Task] = Some s' \<and>
      task s' = Exited \<and> slept s' = [] \<and> opened s' = 1 \<and> 0 \<in> closed_by_retry s' \<and>
      delivered s' = [] \<and> expBackOff s' = 5 \<and> aggExpBackOff s' = 60) \<and>
   (\<exists>s'. run example_deps ((newStream 5 60)\<lparr>task := L_Do\<rparr>)
        [Do_returns (DoError (ClientError ''EOF'')), Receive, Task, Task, Task] = Some s' \<and>
      task s' = Exited \<and> delivered s' = [Msg_Error (ClientError ''EOF'')] \<and> slept s' = [] \<and>
      opened s' = 0)"
proof -
  have start: "run example_deps (newStream 5 60) [Task] = Some ((newStream 5 60)\<lparr>task := L_Do\<rparr>)"
    by (simp add: stream_eval)
  have at_Do: "task ((newStream 5 60)\<lparr>task := L_Do\<rparr>) = L_Do"
    "\<not> panicked ((newStream 5 60 :: (duration, bytes) Stream)\<lparr>task := L_Do\<rparr>)"
    by (simp_all add: newStream_def)
  from retry_attempt [OF start at_Do, where status = 429 and err = "ClientError ''EOF''"]
    retry_attempt [OF start at_Do, where status = 404 and err = "ClientError ''EOF''"]
    start
  show ?thesis
    by (simp add: stream_eval example_eval)
qed

text \<open>
  C4. The responses 503, then 200 with one message and the end of the body. The first
  wait, 5, is slept after the 503. When the stream of the 200 response has ended both
  policies are back in their initial state and no policy has been consulted, but
  \<open>wait\<close> still holds the 5 of the 503 (it is declared before the loop in line 140
  and the 200 case does not assign it), and line 173 sleeps it again before the next
  connection attempt: the task cannot go on without the sleep. The 503 that follows
  gets the initial wait of the normal policy again.
\<close>

theorem stale_wait_after_stream:
  "map_option (\<lambda>s. (task s, wait s, expBackOff s, aggExpBackOff s, slept s, length (sent s)))
     (run example_deps (newStream 5 60)
        [Task, Do_returns (DoResponse 503), Task, Timer,
         Task, Do_returns (DoResponse 200), Task, Read_returns (ReadData ''{}''), Receive,
         Task, Read_returns ReadError, Task, Task]) =
     Some (L_Sleep, 5, 5, 60, [5], 1) \<and>
   map_option (\<lambda>s. (task s, wait s, expBackOff s, aggExpBackOff s, slept s, length (sent s)))
     (run example_deps (newStream 5 60)
        [Task, Do_returns (DoResponse 503), Task, Timer,
         Task, Do_returns (DoResponse 200), Task, Read_returns (ReadData ''{}''), Receive,
         Task, Read_returns ReadError, Task, Task, Timer]) =
     Some (L_Loop, 5, 5, 60, [5, 5], 1) \<and>
   run example_deps (newStream 5 60)
        [Task, Do_returns (DoResponse 503), Task, Timer,
         Task, Do_returns (DoResponse 200), Task, Read_returns (ReadData ''{}''), Receive,
         Task, Read_returns ReadError, Task, Task, Task] = None \<and>
   map_option (\<lambda>s. (task s, wait s, expBackOff s, aggExpBackOff s, slept s, length (sent s)))
     (run example_deps (newStream 5 60)
        [Task, Do_returns (DoResponse 503), Task, Timer,
         Task, Do_returns (DoResponse 200), Task, Read_returns (ReadData ''{}''), Receive,
         Task, Read_returns ReadError, Task, Task, Timer,
         Task, Do_returns (DoResponse 503)]) =
     Some (L_Close, 5, 10, 60, [5, 5], 1)"
  by (simp add: stream_eval example_eval)

text \<open>
  C5, as stated: Stop can be called twice. The stream below answers 404, so the task
  exits by itself; the first call of Stop, three steps, returns; the first step of the
  second call is \<open>close(s.done)\<close> on the closed channel, and the program panics.
\<close>

theorem Stop_twice_counterexample:
  "map_option task (run example_deps (newStream 5 60)
      [Task, Do_returns (DoResponse 404), Task, Task, Task,
       Stop_step, Stop_step, Stop_step]) = Some Exited \<and>
   map_option returns (run example_deps (newStream 5 60)
      [Task, Do_returns (DoResponse 404), Task, Task, Task,
       Stop_step, Stop_step, Stop_step]) = Some 1 \<and>
   map_option panicked (run example_deps (newStream 5 60)
      [Task, Do_returns (DoResponse 404), Task, Task, Task,
       Stop_step, Stop_step, Stop_step]) = Some False \<and>
   map_option returns (run example_deps (newStream 5 60)
      [Task, Do_returns (DoResponse 404), Task, Task, Task,
       Stop_step, Stop_step, Stop_step, Stop_step]) = Some 1 \<and>
   map_option panicked (run example_deps (newStream 5 60)
      [Task, Do_returns (DoResponse 404), Task, Task, Task,
       Stop_step, Stop_step, Stop_step, Stop_step]) = Some True"
  by (simp add: stream_eval example_eval)

text \<open>
  C5, amended. In every state that a stream reaches with no call of Stop in progress:
  when Stop has not been called and the task has exited by itself, a call of Stop closes
  done, finds the wait group at zero and returns without a panic; when Stop has returned
  before, the next call panics at \<open>close(s.done)\<close>, it does not return, and the
  program takes no further step.
\<close>

theorem Stop_once:
  assumes "run D (newStream e0 a0) sched = Some s" and "stopper s = S_Idle"
    and "\<not> panicked s"
  shows
    "(returns s = 0 \<and> task s = Exited \<longrightarrow>
        (\<exists>s'. run D s [Stop_step, Stop_step, Stop_step] = Some s' \<and> \<not> panicked s' \<and>
           stopper s' = S_Idle \<and> returns s' = 1 \<and> done_closed s' \<and> task s' = Exited)) \<and>
     (0 < returns s \<longrightarrow>
        (\<exists>s'. step D s Stop_step = Some s' \<and> panicked s' \<and> returns s' = returns s \<and>
           (\<forall>a. step D s' a = None)))"
proof -
  from lifecycle_reachable [OF assms(1)] have inv: "lifecycle s" .
  have first: "\<exists>s'. run D s [Stop_step, Stop_step, Stop_step] = Some s' \<and> \<not> panicked s' \<and>
           stopper s' = S_Idle \<and> returns s' = 1 \<and> done_closed s' \<and> task s' = Exited"
    if "returns s = 0 \<and> task s = Exited"
    using that assms(2,3) inv
    by (cases "body s") (simp_all add: step_def Stop_def lifecycle_def)
  have second: "\<exists>s'. step D s Stop_step = Some s' \<and> panicked s' \<and> returns s' = returns s \<and>
           (\<forall>a. step D s' a = None)"
    if "0 < returns s"
    using that assms(2,3) inv
    by (simp add: step_def Stop_def lifecycle_def)
  from first second show ?thesis
    by blast
qed

theorem Stop_once_witness:
  "(\<exists>s. run example_deps (newStream 5 60)
        [Task, Do_returns (DoResponse 404), Task, Task, Task] = Some s \<and>
      stopper s = S_Idle \<and> returns s = 0 \<and> task s = Exited \<and>
      (\<exists>s'. run example_deps s [Stop_step, Stop_step, Stop_step] = Some s' \<and>
         \<not> panicked s' \<and> returns s' = 1 \<and> done_closed s')) \<and>
   (\<exists>t. run example_deps (newStream 5 60)
        [Task, Do_returns (DoResponse 404), Task, Task, Task,
         Stop_step, Stop_step, Stop_step] = Some t \<and>
      stopper t = S_Idle \<and> returns t = 1 \<and>
      (\<exists>t'. step example_deps t Stop_step = Some t' \<and> panicked t'))"
proof -
  obtain s where s: "run example_deps (newStream 5 60)
        [Task, Do_returns (DoResponse 404), Task, Task, Task] = Some s"
    and s_at: "stopper s = S_Idle" "\<not> panicked s" "returns s = 0" "task s = Exited"
    by (simp add: stream_eval example_eval)
  obtain t where t: "run example_deps (newStream 5 60)
        [Task, Do_returns (DoResponse 404), Task, Task, Task,
         Stop_step, Stop_step, Stop_step] = Some t"
    and t_at: "stopper t = S_Idle" "\<not> panicked t" "returns t = 1"
    by (simp add: stream_eval example_eval)
  from Stop_once [OF s s_at(1,2)] s_at
  have one: "\<exists>s'. run example_deps s [Stop_step, Stop_step, Stop_step] = Some s' \<and>
         \<not> panicked s' \<and> returns s' = 1 \<and> done_closed s'"
    by blast
  from Stop_once [OF t t_at(1,2)] t_at
  have two: "\<exists>t'. step example_deps t Stop_step = Some t' \<and> panicked t'"
    by auto
  from s s_at one t t_at two show ?thesis
    by blast
qed

text \<open>
  C6, as stated: in every execution the Messages channel is closed exactly once. In the
  execution below the server answers 200 and sends one token, and the consumer neither
  receives nor calls Stop. The task waits in the select of line 191: Messages is not
  closed, and no step of the task, of the server or of a timer is enabled, so it never
  will be.
\<close>

theorem Messages_left_open_counterexample:
  "map_option Messages_closes (run example_deps (newStream 5 60)
      [Task, Do_returns (DoResponse 200), Task, Read_returns (ReadData ''{}'')]) = Some 0 \<and>
   map_option pending (run example_deps (newStream 5 60)
      [Task, Do_returns (DoResponse 200), Task, Read_returns (ReadData ''{}'')]) =
     Some [getMessage (codec example_deps) ''{}''] \<and>
   map_option panicked (run example_deps (newStream 5 60)
      [Task, Do_returns (DoResponse 200), Task, Read_returns (ReadData ''{}'')]) = Some False \<and>
   run example_deps (newStream 5 60)
      [Task, Do_returns (DoResponse 200), Task, Read_returns (ReadData ''{}''), Task] = None \<and>
   run example_deps (newStream 5 60)
      [Task, Do_returns (DoResponse 200), Task, Read_returns (ReadData ''{}''), Select_done] = None \<and>
   run example_deps (newStream 5 60)
      [Task, Do_returns (DoResponse 200), Task, Read_returns (ReadData ''{}''), Timer] = None \<and>
   run example_deps (newStream 5 60)
      [Task, Do_returns (DoResponse 200), Task, Read_returns (ReadData ''{}''), Wake] = None \<and>
   run example_deps (newStream 5 60)
      [Task, Do_returns (DoResponse 200), Task, Read_returns (ReadData ''{}''),
       Read_returns ReadError] = None \<and>
   run example_deps (newStream 5 60)
      [Task, Do_returns (DoResponse 200), Task, Read_returns (ReadData ''{}''),
       Do_returns (DoResponse 200)] = None"
  by (simp add: stream_eval example_eval)

text \<open>
  C6, amended. In every state that a stream reaches the Messages channel has been closed
  at most once, and it has been closed exactly when \<open>retry\<close> has returned. The close is
  the last statement of \<open>retry\<close>: when it is about to run, and ever after, every response
  body that was opened has been closed by \<open>retry\<close> and no send is pending; once
  \<open>retry\<close> reaches its deferred calls it runs to the close without a send; and after
  the close nothing more is delivered.
\<close>

theorem Messages_closed_once:
  assumes "run D (newStream e0 a0) sched = Some s"
  shows
    "Messages_closes s \<le> 1 \<and>
     (Messages_closes s = 1) = (task s = Exited) \<and>
     (task s = D_CloseMessages \<or> task s = Exited \<longrightarrow>
        (\<forall>b<opened s. b \<in> closed_by_retry s) \<and> deferred s = [] \<and> pending s = []) \<and>
     (task s = D_Bodies \<and> \<not> panicked s \<longrightarrow>
        (\<exists>s'. run D s [Task, Task, Task] = Some s' \<and> task s' = Exited \<and>
           Messages_closes s' = 1 \<and> delivered s' = delivered s)) \<and>
     (task s = D_CloseMessages \<and> \<not> panicked s \<longrightarrow>
        (\<exists>s'. step D s Task = Some s' \<and> task s' = Exited \<and> Messages_closes s' = 1 \<and>
           delivered s' = delivered s \<and> closed_by_retry s' = closed_by_retry s)) \<and>
     (task s = Exited \<longrightarrow>
        (\<forall>more s'. run D s more = Some s' \<longrightarrow>
           task s' = Exited \<and> delivered s' = delivered s \<and> Messages_closes s' = 1))"
proof -
  from lifecycle_reachable [OF assms] have inv: "lifecycle s" .
  from inv have once: "Messages_closes s \<le> 1" "(Messages_closes s = 1) = (task s = Exited)"
    by (simp_all add: lifecycle_def)
  from inv have before: "(\<forall>b<opened s. b \<in> closed_by_retry s) \<and> deferred s = [] \<and> pending s = []"
    if "task s = D_CloseMessages \<or> task s = Exited"
    using that by (auto simp: lifecycle_def unwinding_def pending_def)
  from inv have unwind: "\<exists>s'. run D s [Task, Task, Task] = Some s' \<and> task s' = Exited \<and>
           Messages_closes s' = 1 \<and> delivered s' = delivered s"
    if "task s = D_Bodies \<and> \<not> panicked s"
    using that by (simp add: lifecycle_def unwinding_def stream_eval)
  from inv have closing: "\<exists>s'. step D s Task = Some s' \<and> task s' = Exited \<and>
           Messages_closes s' = 1 \<and> delivered s' = delivered s \<and>
           closed_by_retry s' = closed_by_retry s"
    if "task s = D_CloseMessages \<and> \<not> panicked s"
    using that by (simp add: lifecycle_def unwinding_def stream_eval)
  have after: "task s' = Exited \<and> delivered s' = delivered s \<and> Messages_closes s' = 1"
    if "task s = Exited" and "run D s more = Some s'" for more s'
    using exited_run [OF that] once(2) that(1) by (simp add: delivered_def)
  from once before unwind closing after show ?thesis
    by blast
qed

theorem Messages_closed_once_witness:
  "\<exists>s. run example_deps (newStream 5 60)
        [Task, Do_returns (DoResponse 200), Task, Read_returns (ReadData ''{}''), Receive,
         Task, Read_returns ReadError, Task, Task, Timer,
         Task, Do_returns (DoResponse 404), Task, Task, Task] = Some s \<and>
      task s = Exited \<and> opened s = 2 \<and> Messages_closes s = 1 \<and>
      0 \<in> closed_by_retry s \<and> 1 \<in> closed_by_retry s \<and> deferred s = [] \<and> pending s = []"
proof -
  obtain s where s: "run example_deps (newStream 5 60)
        [Task, Do_returns (DoResponse 200), Task, Read_returns (ReadData ''{}''), Receive,
         Task, Read_returns ReadError, Task, Task, Timer,
         Task, Do_returns (DoResponse 404), Task, Task, Task] = Some s"
    and s_at: "task s = Exited" "opened s = 2"
    by (simp add: stream_eval example_eval)
  from Messages_closed_once [OF s] s_at
  have "Messages_closes s = 1 \<and> (\<forall>b<2. b \<in> closed_by_retry s) \<and> deferred s = [] \<and>
    pending s = []"
    by simp
  then have "Messages_closes s = 1 \<and> 0 \<in> closed_by_retry s \<and> 1 \<in> closed_by_retry s \<and>
    deferred s = [] \<and> pending s = []"
    by simp
  with s s_at show ?thesis
    by blast
qed

text \<open>
  C7. Stop is to return only after the Messages channel has been closed and to complete
  in every state of the task, also when the task is blocked in a send. In the first
  execution below the HTTP client returns an error, the task offers it to the Messages
  channel in line 145, a plain send with no done case, and Stop is called: Stop waits
  for the task and the task waits for a receiver; no step of Stop or of the task is
  enabled. In the second execution the server answers 404, the task runs its deferred
  \<open>s.group.Done()\<close>, and Stop is called and returns: the deferred
  \<open>close(s.Messages)\<close>, registered first and so run last, has not run yet.
\<close>

theorem Stop_blocked_or_early:
  "map_option task (run example_deps (newStream 5 60)
      [Task, Do_returns (DoError (ClientError ''EOF'')), Stop_step, Stop_step]) =
     Some (L_SendErr (ClientError ''EOF'')) \<and>
   map_option stopper (run example_deps (newStream 5 60)
      [Task, Do_returns (DoError (ClientError ''EOF'')), Stop_step, Stop_step]) = Some S_Wait \<and>
   map_option returns (run example_deps (newStream 5 60)
      [Task, Do_returns (DoError (ClientError ''EOF'')), Stop_step, Stop_step]) = Some 0 \<and>
   map_option panicked (run example_deps (newStream 5 60)
      [Task, Do_returns (DoError (ClientError ''EOF'')), Stop_step, Stop_step]) = Some False \<and>
   run example_deps (newStream 5 60)
      [Task, Do_returns (DoError (ClientError ''EOF'')), Stop_step, Stop_step, Stop_step] = None \<and>
   run example_deps (newStream 5 60)
      [Task, Do_returns (DoError (ClientError ''EOF'')), Stop_step, Stop_step, Task] = None \<and>
   run example_deps (newStream 5 60)
      [Task, Do_returns (DoError (ClientError ''EOF'')), Stop_step, Stop_step, Select_done] = None \<and>
   run example_deps (newStream 5 60)
      [Task, Do_returns (DoError (ClientError ''EOF'')), Stop_step, Stop_step, Wake] = None \<and>
   run example_deps (newStream 5 60)
      [Task, Do_returns (DoError (ClientError ''EOF'')), Stop_step, Stop_step, Timer] = None \<and>
   map_option task (run example_deps (newStream 5 60)
      [Task, Do_returns (DoResponse 404), Task, Task, Stop_step, Stop_step, Stop_step]) =
     Some D_CloseMessages \<and>
   map_option returns (run example_deps (newStream 5 60)
      [Task, Do_returns (DoResponse 404), Task, Task, Stop_step, Stop_step, Stop_step]) = Some 1 \<and>
   map_option Messages_closes (run example_deps (newStream 5 60)
      [Task, Do_returns (DoResponse 404), Task, Task, Stop_step, Stop_step, Stop_step]) = Some 0 \<and>
   map_option panicked (run example_deps (newStream 5 60)
      [Task, Do_returns (DoResponse 404), Task, Task, Stop_step, Stop_step, Stop_step]) =
     Some False"
  by (simp add: stream_eval example_eval)

text \<open>
  What Stop does achieve, in every state that a stream reaches: the first call of Stop
  closes done and the body that the stream holds and then waits for the wait group; the
  wait ends exactly when the task has run \<open>s.group.Done()\<close>, so that Stop has returned
  only after the task has closed every response body it opened and has no send pending.
  Once done is closed every step of the task brings it closer to its exit and the task
  can take its next step by itself except while it waits for the HTTP client, for the
  reader or for the receiver of the client error; in particular a task offering a
  message in the select of \<open>receive\<close> takes the done case, a task sleeping in a backoff
  wait wakes at once, and both run to their exit with no receive and no further sleep.
\<close>

theorem Stop_completes:
  assumes "run D (newStream e0 a0) sched = Some s" and "\<not> panicked s"
  shows
    "(stopper s = S_Idle \<and> returns s = 0 \<longrightarrow>
        (\<exists>s'. run D s [Stop_step, Stop_step] = Some s' \<and> \<not> panicked s' \<and> done_closed s' \<and>
           stopper s' = S_Wait \<and> task s' = task s \<and>
           (\<forall>b. body s = Some b \<longrightarrow> b \<in> closed_by_Stop s'))) \<and>
     (stopper s = S_Wait \<longrightarrow>
        (if task s = D_CloseMessages \<or> task s = Exited
         then \<exists>s'. step D s Stop_step = Some s' \<and> \<not> panicked s' \<and> stopper s' = S_Idle \<and>
                returns s' = Suc (returns s)
         else step D s Stop_step = None)) \<and>
     (0 < returns s \<longrightarrow>
        (task s = D_CloseMessages \<or> task s = Exited) \<and>
        (\<forall>b<opened s. b \<in> closed_by_retry s) \<and> pending s = []) \<and>
     (done_closed s \<longrightarrow>
        (\<forall>a s'. a \<noteq> Stop_step \<and> step D s a = Some s' \<longrightarrow> rank (task s') < rank (task s)) \<and>
        (\<forall>a. own_move (task s) = Some a \<longrightarrow> (\<exists>s'. step D s a = Some s')) \<and>
        (task s = L_Sleep \<longrightarrow>
           (\<exists>s'. run D s [Wake, Task, Task, Task, Task] = Some s' \<and> task s' = Exited \<and>
              group s' = 0 \<and> sent s' = sent s \<and> slept s' = slept s)) \<and>
        (\<forall>m. task s = L_Receive (R_Select m) \<longrightarrow>
           (\<exists>s'. run D s
                (Select_done # Task # Task #
                   (if wait s = backoff_Stop then [] else [Wake, Task]) @ [Task, Task, Task]) =
                Some s' \<and>
              task s' = Exited \<and> group s' = 0 \<and> sent s' = sent s \<and> slept s' = slept s)))"
proof -
  from lifecycle_reachable [OF assms(1)] have inv: "lifecycle s" .
  have call: "\<exists>s'. run D s [Stop_step, Stop_step] = Some s' \<and> \<not> panicked s' \<and> done_closed s' \<and>
           stopper s' = S_Wait \<and> task s' = task s \<and>
           (\<forall>b. body s = Some b \<longrightarrow> b \<in> closed_by_Stop s')"
    if "stopper s = S_Idle \<and> returns s = 0"
    using that assms(2) inv
    by (cases "body s") (simp_all add: step_def Stop_def lifecycle_def)
  have waits: "if task s = D_CloseMessages \<or> task s = Exited
         then \<exists>s'. step D s Stop_step = Some s' \<and> \<not> panicked s' \<and> stopper s' = S_Idle \<and>
                returns s' = Suc (returns s)
         else step D s Stop_step = None"
    if "stopper s = S_Wait"
    using that assms(2) inv
    by (simp add: step_def Stop_def lifecycle_def)
  have returned: "(task s = D_CloseMessages \<or> task s = Exited) \<and>
        (\<forall>b<opened s. b \<in> closed_by_retry s) \<and> pending s = []"
    if "0 < returns s"
    using that inv
    by (auto simp: lifecycle_def unwinding_def pending_def split: if_splits)
  have closer: "rank (task s') < rank (task s)"
    if "done_closed s" and "a \<noteq> Stop_step \<and> step D s a = Some s'" for a s'
    using rank_step [OF inv that(1), of a D s'] that(2) by simp
  have enabled: "\<exists>s'. step D s a = Some s'"
    if "done_closed s" and "own_move (task s) = Some a" for a
    using own_move_enabled [OF assms(2) that] .
  have wakes: "\<exists>s'. run D s [Wake, Task, Task, Task, Task] = Some s' \<and> task s' = Exited \<and>
              group s' = 0 \<and> sent s' = sent s \<and> slept s' = slept s"
    if "done_closed s" and "task s = L_Sleep"
    using that assms(2) inv
    by (simp add: lifecycle_def unwinding_def stream_eval)
  have cancels: "\<exists>s'. run D s
                (Select_done # Task # Task #
                   (if wait s = backoff_Stop then [] else [Wake, Task]) @ [Task, Task, Task]) =
                Some s' \<and>
              task s' = Exited \<and> group s' = 0 \<and> sent s' = sent s \<and> slept s' = slept s"
    if "done_closed s" and "task s = L_Receive (R_Select m)" for m
    using that assms(2) inv
    by (cases "body s") (simp_all add: lifecycle_def unwinding_def stream_eval)
  from call waits returned closer enabled wakes cancels show ?thesis
    by blast
qed

theorem Stop_completes_witness:
  "(\<exists>s0. run example_deps (newStream 5 60)
        [Task, Do_returns (DoResponse 200), Task, Read_returns (ReadData ''{}'')] = Some s0 \<and>
      stopper s0 = S_Idle \<and> returns s0 = 0 \<and> body s0 = Some 0 \<and>
      (\<exists>s'. run example_deps s0 [Stop_step, Stop_step] = Some s' \<and> done_closed s' \<and>
         stopper s' = S_Wait \<and> 0 \<in> closed_by_Stop s')) \<and>
   (\<exists>s. run example_deps (newStream 5 60)
        [Task, Do_returns (DoResponse 200), Task, Read_returns (ReadData ''{}''),
         Stop_step, Stop_step] = Some s \<and>
      stopper s = S_Wait \<and> done_closed s \<and> pending s = [getMessage (codec example_deps) ''{}''] \<and>
      step example_deps s Stop_step = None \<and>
      (\<exists>s'. run example_deps s [Select_done, Task, Task, Wake, Task, Task, Task, Task] = Some s' \<and>
         task s' = Exited \<and> group s' = 0 \<and> sent s' = [] \<and> slept s' = [])) \<and>
   (\<exists>t. run example_deps (newStream 5 60)
        [Task, Do_returns (DoResponse 200), Task, Read_returns (ReadData ''{}''),
         Stop_step, Stop_step,
         Select_done, Task, Task, Wake, Task, Task, Task, Task] = Some t \<and>
      stopper t = S_Wait \<and> task t = Exited \<and> returns t = 0 \<and>
      (\<exists>t'. step example_deps t Stop_step = Some t' \<and> stopper t' = S_Idle \<and> returns t' = 1))"
proof -
  obtain s0 where s0: "run example_deps (newStream 5 60)
        [Task, Do_returns (DoResponse 200), Task, Read_returns (ReadData ''{}'')] = Some s0"
    and s0_at: "\<not> panicked s0" "stopper s0 = S_Idle" "returns s0 = 0" "body s0 = Some 0"
    by (simp add: stream_eval example_eval)
  obtain s where s: "run example_deps (newStream 5 60)
        [Task, Do_returns (DoResponse 200), Task, Read_returns (ReadData ''{}''),
         Stop_step, Stop_step] = Some s"
    and s_at: "\<not> panicked s" "stopper s = S_Wait" "done_closed s"
      "task s = L_Receive (R_Select (getMessage (codec example_deps) ''{}''))"
      "wait s = 0" "sent s = []" "slept s = []"
    by (simp add: stream_eval example_eval)
  obtain t where t: "run example_deps (newStream 5 60)
        [Task, Do_returns (DoResponse 200), Task, Read_returns (ReadData ''{}''),
         Stop_step, Stop_step,
         Select_done, Task, Task, Wake, Task, Task, Task, Task] = Some t"
    and t_at: "\<not> panicked t" "stopper t = S_Wait" "task t = Exited" "returns t = 0"
    by (simp add: stream_eval example_eval)
  from Stop_completes [OF s0 s0_at(1)] s0_at
  have first: "\<exists>s'. run example_deps s0 [Stop_step, Stop_step] = Some s' \<and> done_closed s' \<and>
         stopper s' = S_Wait \<and> 0 \<in> closed_by_Stop s'"
    by (simp del: run.simps) blast
  from Stop_completes [OF s s_at(1)] s_at
  have second: "step example_deps s Stop_step = None \<and>
      (\<exists>s'. run example_deps s [Select_done, Task, Task, Wake, Task, Task, Task, Task] = Some s' \<and>
         task s' = Exited \<and> group s' = 0 \<and> sent s' = [] \<and> slept s' = [])"
    by (simp add: backoff_Stop_def del: run.simps)
  from Stop_completes [OF t t_at(1)] t_at
  have third: "\<exists>t'. step example_deps t Stop_step = Some t' \<and> stopper t' = S_Idle \<and> returns t' = 1"
    by (simp del: run.simps) blast
  from s_at have offered: "pending s = [getMessage (codec example_deps) ''{}'']"
    by (simp add: pending_def)
  from s0 s0_at first s s_at offered second t t_at third show ?thesis
    by blast
qed

text \<open>
  C8, as stated: non-empty tokens are forwarded in the order they were framed. In the
  execution below the reader frames one non-empty token and Stop closes done while
  \<open>receive\<close> offers its message; the select of line 191 takes the done case, the
  message is dropped, and the task runs to its exit having forwarded nothing.
\<close>

theorem receive_cancelled_counterexample:
  "map_option framed (run example_deps (newStream 5 60)
      [Task, Do_returns (DoResponse 200), Task, Read_returns (ReadData ''{}''),
       Stop_step, Select_done]) = Some [''{}''] \<and>
   map_option sent (run example_deps (newStream 5 60)
      [Task, Do_returns (DoResponse 200), Task, Read_returns (ReadData ''{}''),
       Stop_step, Select_done]) = Some [] \<and>
   map_option lost (run example_deps (newStream 5 60)
      [Task, Do_returns (DoResponse 200), Task, Read_returns (ReadData ''{}''),
       Stop_step, Select_done]) = Some [getMessage (codec example_deps) ''{}''] \<and>
   map_option task (run example_deps (newStream 5 60)
      [Task, Do_returns (DoResponse 200), Task, Read_returns (ReadData ''{}''),
       Stop_step, Select_done, Task, Task, Wake, Task, Task, Task, Task]) = Some Exited \<and>
   map_option sent (run example_deps (newStream 5 60)
      [Task, Do_returns (DoResponse 200), Task, Read_returns (ReadData ''{}''),
       Stop_step, Select_done, Task, Task, Wake, Task, Task, Task, Task]) = Some [] \<and>
   map_option Messages_closes (run example_deps (newStream 5 60)
      [Task, Do_returns (DoResponse 200), Task, Read_returns (ReadData ''{}''),
       Stop_step, Select_done, Task, Task, Wake, Task, Task, Task, Task]) = Some 1"
  by (simp add: stream_eval example_eval)

text \<open>
  C8, amended. In every state that a stream reaches: a zero-length token is framed and
  \<open>receive\<close> goes back to the head of its loop, where it reads again unless done is
  closed, so that a keep-alive is neither sent nor taken for the end of the stream; a
  read error ends \<open>receive\<close>; a non-empty token is classified and offered to the
  Messages channel. The messages sent, then the one being offered, then the one dropped,
  are the classifications of the non-empty tokens in the order they were framed; at most
  one message is ever dropped, the last one, and only when done is closed.
\<close>

theorem receive_keeps_order:
  assumes "run D (newStream e0 a0) sched = Some s"
  shows
    "sent s @ pending s @ lost s =
       map (getMessage (codec D)) (filter (\<lambda>d. d \<noteq> []) (framed s)) \<and>
     length (lost s) \<le> 1 \<and>
     (lost s = [] \<or> done_closed s) \<and>
     (task s = L_Receive R_Read \<and> \<not> panicked s \<longrightarrow>
        step D s (Read_returns (ReadData [])) =
          Some (s\<lparr>framed := framed s @ [[]], task := L_Receive R_Loop\<rparr>) \<and>
        step D s (Read_returns ReadError) = Some (s\<lparr>task := L_Reset\<rparr>) \<and>
        (d \<noteq> [] \<longrightarrow>
           step D s (Read_returns (ReadData d)) =
             Some (s\<lparr>framed := framed s @ [d],
                     task := L_Receive (R_Select (getMessage (codec D) d))\<rparr>))) \<and>
     (task s = L_Receive (R_Select m) \<and> \<not> panicked s \<longrightarrow>
        step D s Receive = Some (s\<lparr>sent := sent s @ [m], task := L_Receive R_Loop\<rparr>)) \<and>
     (task s = L_Receive R_Loop \<and> \<not> panicked s \<and> \<not> done_closed s \<longrightarrow>
        step D s Task = Some (s\<lparr>task := L_Receive R_Read\<rparr>))"
proof -
  from in_order_reachable [OF assms] have inv: "in_order (codec D) s" .
  from inv have order: "sent s @ pending s @ lost s =
       map (getMessage (codec D)) (filter (\<lambda>d. d \<noteq> []) (framed s))"
    by (simp add: in_order_def)
  from inv have drop: "length (lost s) \<le> 1" "lost s = [] \<or> done_closed s"
    by (auto simp: in_order_def)
  have reads: "step D s (Read_returns (ReadData [])) =
          Some (s\<lparr>framed := framed s @ [[]], task := L_Receive R_Loop\<rparr>) \<and>
        step D s (Read_returns ReadError) = Some (s\<lparr>task := L_Reset\<rparr>) \<and>
        (d \<noteq> [] \<longrightarrow>
           step D s (Read_returns (ReadData d)) =
             Some (s\<lparr>framed := framed s @ [d],
                     task := L_Receive (R_Select (getMessage (codec D) d))\<rparr>))"
    if "task s = L_Receive R_Read \<and> \<not> panicked s"
    using that by (simp add: stream_eval)
  have sends: "step D s Receive = Some (s\<lparr>sent := sent s @ [m], task := L_Receive R_Loop\<rparr>)"
    if "task s = L_Receive (R_Select m) \<and> \<not> panicked s"
    using that by (simp add: stream_eval)
  have loops: "step D s Task = Some (s\<lparr>task := L_Receive R_Read\<rparr>)"
    if "task s = L_Receive R_Loop \<and> \<not> panicked s \<and> \<not> done_closed s"
    using that by (simp add: stream_eval)
  from order drop reads sends loops show ?thesis
    by blast
qed

theorem receive_keeps_order_witness:
  "\<exists>s. run example_deps (newStream 5 60)
        [Task, Do_returns (DoResponse 200), Task, Read_returns (ReadData []),
         Task, Read_returns (ReadData ''{}''), Receive,
         Task, Read_returns (ReadData ''7'')] = Some s \<and>
      framed s = [[], ''{}'', ''7''] \<and>
      sent s @ pending s @ lost s =
        [getMessage (codec example_deps) ''{}'', getMessage (codec example_deps) ''7''] \<and>
      lost s = [] \<and>
      step example_deps s Receive =
        Some (s\<lparr>sent := sent s @ [getMessage (codec example_deps) ''7''],
                task := L_Receive R_Loop\<rparr>)"
proof -
  obtain s where s: "run example_deps (newStream 5 60)
        [Task, Do_returns (DoResponse 200), Task, Read_returns (ReadData []),
         Task, Read_returns (ReadData ''{}''), Receive,
         Task, Read_returns (ReadData ''7'')] = Some s"
    and s_at: "\<not> panicked s" "framed s = [[], ''{}'', ''7'']" "\<not> done_closed s"
      "task s = L_Receive (R_Select (getMessage (codec example_deps) ''7''))"
    by (simp add: stream_eval example_eval)
  note ord = receive_keeps_order [OF s, where m = "getMessage (codec example_deps) ''7''"]
  from ord s_at have order: "sent s @ pending s @ lost s =
        [getMessage (codec example_deps) ''{}'', getMessage (codec example_deps) ''7'']"
    by auto
  from ord s_at have kept: "lost s = []"
    by simp
  from ord s_at have sends: "step example_deps s Receive =
        Some (s\<lparr>sent := sent s @ [getMessage (codec example_deps) ''7''],
                task := L_Receive R_Loop\<rparr>)"
    by simp
  from s s_at order kept sends show ?thesis
    by blast
qed


end
